theory Spec2Isabelle
  imports Complex_Main "HOL-Library.Word" "HOL-Library.Finite_Map" "HOL-Library.Sublist"
    "HOL-Library.Log_Nat"
begin

section \<open>JavaScript values\<close>

text \<open>
  A JavaScript string is a sequence of UTF-16 code units. String literals of the source
  are written \<open>lit ''...''\<close>. The methods used by the server are modelled on code units:
  \<open>trim\<close> removes the ECMAScript white space and line terminator characters (all of them
  lie in the basic plane) from both ends, \<open>substring(0, n)\<close> keeps the first \<open>n\<close> units.
\<close>

type_synonym code_unit = "16 word"
type_synonym jsstring = "code_unit list"

definition lit :: "string \<Rightarrow> jsstring" where
  "lit s = map of_char s"

definition isWhiteSpace :: "code_unit \<Rightarrow> bool" where
  "isWhiteSpace c \<longleftrightarrow>
     c \<in> {0x09, 0x0A, 0x0B, 0x0C, 0x0D, 0x20, 0xA0, 0x1680, 0x2028, 0x2029, 0x202F, 0x205F,
          0x3000, 0xFEFF} \<or> (0x2000 \<le> c \<and> c \<le> 0x200A)"

definition trim :: "jsstring \<Rightarrow> jsstring" where
  "trim s = rev (dropWhile isWhiteSpace (rev (dropWhile isWhiteSpace s)))"

definition substring0 :: "nat \<Rightarrow> jsstring \<Rightarrow> jsstring" where
  "substring0 n s = take n s"

text \<open>\<open>String.prototype.replace\<close> with a global single-character pattern.\<close>

definition replaceAll :: "code_unit \<Rightarrow> jsstring \<Rightarrow> jsstring \<Rightarrow> jsstring" where
  "replaceAll c r s = concat (map (\<lambda>x. if x = c then r else [x]) s)"

text \<open>\<open>Number.prototype.toString\<close> on integers.\<close>

definition digit :: "nat \<Rightarrow> code_unit" where
  "digit d = of_nat (48 + d)"

fun toString :: "nat \<Rightarrow> jsstring" where
  "toString n = (if n < 10 then [digit n] else toString (n div 10) @ [digit (n mod 10)])"

declare toString.simps [simp del]

definition toStringInt :: "int \<Rightarrow> jsstring" where
  "toStringInt i = (if i < 0 then lit ''-'' @ toString (nat (- i)) else toString (nat i))"

definition isDigit :: "code_unit \<Rightarrow> bool" where
  "isDigit c \<longleftrightarrow> 0x30 \<le> c \<and> c \<le> 0x39"

text \<open>The test \<open>/^\d{4}$/.test(roomId)\<close> of the event handlers.\<close>

definition isRoomCode :: "jsstring \<Rightarrow> bool" where
  "isRoomCode s \<longleftrightarrow> length s = 4 \<and> list_all isDigit s"

text \<open>
  Values that arrive from a client. \<open>JOther\<close> stands for every value that is neither a
  string nor an object with fields (\<open>undefined\<close>, \<open>null\<close>, numbers, booleans); a field that
  an object does not have reads as \<open>undefined\<close>.
\<close>

datatype jsval = JStr jsstring | JObj "(string \<times> jsval) list" | JOther

definition field :: "string \<Rightarrow> (string \<times> jsval) list \<Rightarrow> jsval" where
  "field k fs = (case map_of fs k of None \<Rightarrow> JOther | Some v \<Rightarrow> v)"

text \<open>A thrown \<open>Error\<close>, with its \<open>message\<close>.\<close>

datatype js_error = Error (message: jsstring)

section \<open>Configuration (config.js)\<close>

text \<open>
  Every limit is \<open>parseInt(process.env.X) || default\<close>, an integer. \<open>MESSAGE.MIN_LENGTH\<close>,
  \<open>USERNAME.MAX_LENGTH\<close> and \<open>USERNAME.MIN_LENGTH\<close> are constants of the source.
\<close>

record config =
  RATE_LIMIT_MAX_MESSAGES :: int
  RATE_LIMIT_WINDOW_MS :: int
  EVENT_RATE_LIMIT :: int
  EVENT_RATE_WINDOW_MS :: int
  MESSAGE_MAX_LENGTH :: int
  MESSAGE_HISTORY_LIMIT :: int
  ROOM_MAX_USERS :: int
  ROOM_CLEANUP_DELAY_MS :: int
  ROOM_MAX_ROOMS :: int

definition MESSAGE_MIN_LENGTH :: nat where "MESSAGE_MIN_LENGTH = 1"
definition USERNAME_MAX_LENGTH :: nat where "USERNAME_MAX_LENGTH = 20"
definition USERNAME_MIN_LENGTH :: nat where "USERNAME_MIN_LENGTH = 1"

definition default_config :: config where
  "default_config = \<lparr>RATE_LIMIT_MAX_MESSAGES = 10, RATE_LIMIT_WINDOW_MS = 10000,
     EVENT_RATE_LIMIT = 10, EVENT_RATE_WINDOW_MS = 60000, MESSAGE_MAX_LENGTH = 1000,
     MESSAGE_HISTORY_LIMIT = 100, ROOM_MAX_USERS = 50, ROOM_CLEANUP_DELAY_MS = 0,
     ROOM_MAX_ROOMS = 1000\<rparr>"

section \<open>RateLimiter\<close>

text \<open>
  \<open>Date.now()\<close> is an input of \<open>check\<close>. The entry of a client is created or replaced when
  there is none or its window has expired (\<open>current_client\<close>); an allowed request increments
  the count of the entry in place. A denied request writes the entry only when it has just
  been replaced; storing \<open>current_client\<close> covers that case and otherwise stores what is
  there already.
\<close>

record client_entry =
  count :: int
  windowStart :: int

record rate_limiter =
  maxRequests :: int
  windowMs :: int
  clients :: "(jsstring, client_entry) fmap"

record check_result =
  allowed :: bool
  remaining :: int
  resetIn :: int

definition newRateLimiter :: "int \<Rightarrow> int \<Rightarrow> rate_limiter" where
  "newRateLimiter m w = \<lparr>maxRequests = m, windowMs = w, clients = fmempty\<rparr>"

definition current_client :: "int \<Rightarrow> jsstring \<Rightarrow> rate_limiter \<Rightarrow> client_entry" where
  "current_client now identifier rl =
     (case fmlookup (clients rl) identifier of
        None \<Rightarrow> \<lparr>count = 0, windowStart = now\<rparr>
      | Some client \<Rightarrow>
          if now - windowStart client \<ge> windowMs rl then \<lparr>count = 0, windowStart = now\<rparr>
          else client)"

definition check :: "int \<Rightarrow> jsstring \<Rightarrow> rate_limiter \<Rightarrow> check_result \<times> rate_limiter" where
  "check now identifier rl =
     (let client = current_client now identifier rl in
      if count client < maxRequests rl
      then (\<lparr>allowed = True, remaining = maxRequests rl - (count client + 1),
              resetIn = windowMs rl - (now - windowStart client)\<rparr>,
            rl\<lparr>clients := fmupd identifier (client\<lparr>count := count client + 1\<rparr>) (clients rl)\<rparr>)
      else (\<lparr>allowed = False, remaining = 0,
              resetIn = windowMs rl - (now - windowStart client)\<rparr>,
            rl\<lparr>clients := fmupd identifier client (clients rl)\<rparr>))"

definition remove :: "jsstring \<Rightarrow> rate_limiter \<Rightarrow> rate_limiter" where
  "remove identifier rl = rl\<lparr>clients := fmdrop identifier (clients rl)\<rparr>"

text \<open>A run of \<open>check\<close> calls, each with its identifier and its reading of the clock.\<close>

fun checks :: "(jsstring \<times> int) list \<Rightarrow> rate_limiter \<Rightarrow> (jsstring \<times> check_result) list \<times> rate_limiter" where
  "checks [] rl = ([], rl)"
| "checks ((i, t) # cs) rl =
     (case check t i rl of (r, rl1) \<Rightarrow>
        (case checks cs rl1 of (rs, rl2) \<Rightarrow> ((i, r) # rs, rl2)))"

definition allowed_of :: "jsstring \<Rightarrow> (jsstring \<times> check_result) list \<Rightarrow> bool list" where
  "allowed_of identifier res = map (allowed \<circ> snd) (filter (\<lambda>p. fst p = identifier) res)"

definition calls_of :: "jsstring \<Rightarrow> (jsstring \<times> int) list \<Rightarrow> nat" where
  "calls_of identifier cs = length (filter (\<lambda>p. fst p = identifier) cs)"

section \<open>RoomManager\<close>

text \<open>
  The manager holds three \<open>Map\<close>s. An entry of \<open>userSockets\<close> is the object
  \<open>{ roomId, ...userInfo }\<close>, a copy of the user's \<open>{ id, name }\<close> extended with the room. Of a
  cleanup timer only its presence matters, so \<open>cleanupTimers\<close> is the set of the rooms that
  have one pending. \<open>Math.random()\<close> and \<open>new Date()\<close> are inputs.
\<close>

record user_info =
  userId :: jsstring
  userName :: jsstring

record socket_entry = user_info +
  roomId :: jsstring

record chat_message =
  msgId :: jsstring
  msgType :: jsstring
  senderId :: jsstring
  senderName :: jsstring
  content :: jsstring
  timestamp :: int

record room =
  room_id :: jsstring
  users :: "(jsstring, user_info) fmap"
  createdAt :: int
  messages :: "chat_message list"

record room_manager =
  rooms :: "(jsstring, room) fmap"
  userSockets :: "(jsstring, socket_entry) fmap"
  cleanupTimers :: "jsstring fset"

definition newRoomManager :: room_manager where
  "newRoomManager = \<lparr>rooms = fmempty, userSockets = fmempty, cleanupTimers = {||}\<rparr>"

text \<open>
  A JavaScript number is an IEEE 754 double, here the real number it denotes. Every double
  is \<open>n * 2 ^ (e - 52)\<close> for an integer \<open>n\<close> and the exponent \<open>e\<close> of its binade, which is
  at least \<open>- 1022\<close>. An arithmetic operation gives the double nearest to the exact result,
  the one with the even \<open>n\<close> when two are equally near.

  \<open>roundTiesToEven q\<close> is the integer nearest to \<open>q\<close>, the even one at a tie.
\<close>

definition roundTiesToEven :: "real \<Rightarrow> int" where
  "roundTiesToEven q =
     (let f = \<lfloor>q\<rfloor> in
      if q - of_int f < 1 / 2 then f
      else if q - of_int f > 1 / 2 then f + 1
      else if even f then f else f + 1)"

text \<open>
  The exponent of a positive number \<open>x\<close>: the \<open>e\<close> with \<open>2 ^ e \<le> x < 2 ^ (e + 1)\<close>, from the
  number of bits of the integer part of \<open>x\<close> or of \<open>1 / x\<close>.
\<close>

definition exponent :: "real \<Rightarrow> int" where
  "exponent x =
     (if x \<ge> 1 then bitlen \<lfloor>x\<rfloor> - 1
      else - bitlen (\<lceil>1 / x\<rceil> - 1))"

text \<open>
  The distance between the doubles around \<open>x\<close>; below \<open>2 ^ - 1022\<close>, among the subnormal
  numbers, it stays \<open>2 ^ - 1074\<close>.
\<close>

definition ulp :: "real \<Rightarrow> real" where
  "ulp x = 2 powi (max (exponent x) (- 1022) - 52)"

text \<open>
  The double that an operation with the exact result \<open>x\<close> returns. The overflow to
  \<open>Infinity\<close> above \<open>2 ^ 1024\<close> is not part of it: the results here are below \<open>2 ^ 14\<close>.
\<close>

definition fl :: "real \<Rightarrow> real" where
  "fl x = (if x = 0 then 0
           else if x < 0 then - (of_int (roundTiesToEven (- x / ulp (- x))) * ulp (- x))
           else of_int (roundTiesToEven (x / ulp x)) * ulp x)"

definition isDouble :: "real \<Rightarrow> bool" where
  "isDouble x \<longleftrightarrow> fl x = x \<and> \<bar>x\<bar> < 2 ^ 1024"

text \<open>
  \<open>Math.floor(1000 + Math.random() * 9000)\<close>, for a draw \<open>r\<close> of \<open>Math.random()\<close>, a double
  in \<open>[0, 1)\<close>: the product is rounded, the sum is rounded, and \<open>Math.floor\<close> is exact.
\<close>

definition randomCode :: "real \<Rightarrow> nat" where
  "randomCode r = nat \<lfloor>fl (1000 + fl (r * 9000))\<rfloor>"

definition maxAttempts :: nat where "maxAttempts = 100"

text \<open>
  The \<open>do ... while\<close> loop of \<open>generateRoomCode\<close>; \<open>rnd k\<close> is the draw of the iteration that
  starts with \<open>attempts = k\<close>. The attempt counter is tested before the collision test.
\<close>

function generateRoomCode_loop ::
  "(jsstring, room) fmap \<Rightarrow> (nat \<Rightarrow> real) \<Rightarrow> nat \<Rightarrow> js_error + jsstring" where
  "generateRoomCode_loop rs rnd attempts =
     (if Suc attempts \<ge> maxAttempts
      then Inl (Error (lit ''Unable to generate unique room code. Server at capacity.''))
      else if toString (randomCode (rnd attempts)) |\<in>| fmdom rs
      then generateRoomCode_loop rs rnd (Suc attempts)
      else Inr (toString (randomCode (rnd attempts))))"
  by pat_completeness auto
termination
  by (relation "measure (\<lambda>(rs, rnd, attempts). maxAttempts - attempts)") auto

declare generateRoomCode_loop.simps [simp del]

definition generateRoomCode :: "room_manager \<Rightarrow> (nat \<Rightarrow> real) \<Rightarrow> js_error + jsstring" where
  "generateRoomCode s rnd = generateRoomCode_loop (rooms s) rnd 0"

definition generateUserName :: "real \<Rightarrow> jsstring" where
  "generateUserName r = lit ''User_'' @ toString (randomCode r)"

definition isNameControl :: "code_unit \<Rightarrow> bool" where
  "isNameControl c \<longleftrightarrow> c \<le> 0x1F \<or> c = 0x7F"

text \<open>\<open>null\<close> is \<open>None\<close>. The result can be the empty string, which the callers test.\<close>

definition sanitizeUserName :: "jsval \<Rightarrow> jsstring option" where
  "sanitizeUserName name =
     (case name of
        JStr n \<Rightarrow>
          if n = [] then None
          else let sanitized = substring0 USERNAME_MAX_LENGTH (trim n) in
               if length sanitized < USERNAME_MIN_LENGTH then None
               else Some (filter (\<lambda>c. \<not> isNameControl c) sanitized)
      | _ \<Rightarrow> None)"

definition createRoom ::
  "config \<Rightarrow> (nat \<Rightarrow> real) \<Rightarrow> int \<Rightarrow> room_manager \<Rightarrow> js_error + (room \<times> room_manager)" where
  "createRoom cfg rnd now s =
     (if ROOM_MAX_ROOMS cfg > 0 \<and> int (fcard (fmdom (rooms s))) \<ge> ROOM_MAX_ROOMS cfg
      then Inl (Error (lit ''Server at capacity. Please try again later.''))
      else case generateRoomCode s rnd of
             Inl e \<Rightarrow> Inl e
           | Inr code \<Rightarrow>
               let r = \<lparr>room_id = code, users = fmempty, createdAt = now, messages = []\<rparr>
               in Inr (r, s\<lparr>rooms := fmupd code r (rooms s)\<rparr>))"

definition roomExists :: "jsstring \<Rightarrow> room_manager \<Rightarrow> bool" where
  "roomExists rid s \<longleftrightarrow> rid |\<in>| fmdom (rooms s)"

definition getRoomUserCount :: "jsstring \<Rightarrow> room_manager \<Rightarrow> nat" where
  "getRoomUserCount rid s =
     (case fmlookup (rooms s) rid of None \<Rightarrow> 0 | Some r \<Rightarrow> fcard (fmdom (users r)))"

definition getUserInfo :: "jsstring \<Rightarrow> room_manager \<Rightarrow> socket_entry option" where
  "getUserInfo sid s = fmlookup (userSockets s) sid"

definition cancelRoomCleanup :: "jsstring \<Rightarrow> room_manager \<Rightarrow> room_manager" where
  "cancelRoomCleanup rid s = s\<lparr>cleanupTimers := cleanupTimers s |-| {|rid|}\<rparr>"

text \<open>The loop over \<open>room.users.keys()\<close> deletes every member's entry of the reverse index.\<close>

definition destroyRoom :: "jsstring \<Rightarrow> room_manager \<Rightarrow> room_manager" where
  "destroyRoom rid s =
     (case fmlookup (rooms s) rid of
        None \<Rightarrow> s
      | Some r \<Rightarrow>
          cancelRoomCleanup rid
            (s\<lparr>userSockets := fmdrop_fset (fmdom (users r)) (userSockets s),
               rooms := fmdrop rid (rooms s)\<rparr>))"

definition scheduleRoomCleanup :: "config \<Rightarrow> jsstring \<Rightarrow> room_manager \<Rightarrow> room_manager" where
  "scheduleRoomCleanup cfg rid s =
     (let s1 = cancelRoomCleanup rid s in
      if ROOM_CLEANUP_DELAY_MS cfg \<le> 0 then destroyRoom rid s1
      else s1\<lparr>cleanupTimers := finsert rid (cleanupTimers s1)\<rparr>)"

text \<open>The callback that \<open>scheduleRoomCleanup\<close> hands to \<open>setTimeout\<close>, when it fires.\<close>

definition cleanupTimerFired :: "jsstring \<Rightarrow> room_manager \<Rightarrow> room_manager" where
  "cleanupTimerFired rid s =
     (let s1 = (case fmlookup (rooms s) rid of
                  None \<Rightarrow> s
                | Some r \<Rightarrow> if fcard (fmdom (users r)) = 0 then destroyRoom rid s else s)
      in s1\<lparr>cleanupTimers := cleanupTimers s1 |-| {|rid|}\<rparr>)"

definition leaveRoom ::
  "config \<Rightarrow> jsstring \<Rightarrow> jsstring \<Rightarrow> room_manager \<Rightarrow> user_info option \<times> room_manager" where
  "leaveRoom cfg rid sid s =
     (case fmlookup (rooms s) rid of
        None \<Rightarrow> (None, s)
      | Some r \<Rightarrow>
          (case fmlookup (users r) sid of
             None \<Rightarrow> (None, s)
           | Some userInfo \<Rightarrow>
               let r1 = r\<lparr>users := fmdrop sid (users r)\<rparr>;
                   s1 = s\<lparr>rooms := fmupd rid r1 (rooms s),
                          userSockets := fmdrop sid (userSockets s)\<rparr>
               in (Some userInfo,
                   if fcard (fmdom (users r1)) = 0 then scheduleRoomCleanup cfg rid s1 else s1)))"

text \<open>
  \<open>joinRoom\<close>, with the draw \<open>rn\<close> that \<open>generateUserName\<close> would use. The room is looked up
  and its capacity is tested first; the membership test comes after the departure from
  another room. That departure is \<open>leaveRoom\<close> on a different room id, which does not touch
  the room being joined, so the object \<open>room\<close> read at the start is still the one stored.
\<close>

definition joinRoom ::
  "config \<Rightarrow> jsstring \<Rightarrow> jsstring \<Rightarrow> jsval \<Rightarrow> real \<Rightarrow> room_manager \<Rightarrow>
     js_error + (user_info \<times> room_manager)" where
  "joinRoom cfg rid sid preferredName rn s =
     (case fmlookup (rooms s) rid of
        None \<Rightarrow> Inl (Error (lit ''Room not found''))
      | Some r \<Rightarrow>
          if ROOM_MAX_USERS cfg > 0 \<and> int (fcard (fmdom (users r))) \<ge> ROOM_MAX_USERS cfg
          then Inl (Error (lit ''Room is full''))
          else
            let s1 = cancelRoomCleanup rid s;
                s2 = (case fmlookup (userSockets s1) sid of
                        None \<Rightarrow> s1
                      | Some existingUserInfo \<Rightarrow>
                          if roomId existingUserInfo \<noteq> rid
                          then snd (leaveRoom cfg (roomId existingUserInfo) sid s1)
                          else s1)
            in case fmlookup (users r) sid of
                 Some existing \<Rightarrow> Inr (existing, s2)
               | None \<Rightarrow>
                   let uid = lit ''user_'' @ substring0 8 sid;
                       uname = (case preferredName of
                                  JStr p \<Rightarrow>
                                    if p = [] then generateUserName rn
                                    else (case sanitizeUserName preferredName of
                                            None \<Rightarrow> generateUserName rn
                                          | Some sanitized \<Rightarrow>
                                              if sanitized = [] then generateUserName rn
                                              else sanitized)
                                | JObj fs \<Rightarrow> generateUserName rn
                                | JOther \<Rightarrow> generateUserName rn);
                       userInfo = \<lparr>userId = uid, userName = uname\<rparr>
                   in Inr (userInfo,
                           s2\<lparr>rooms := fmupd rid (r\<lparr>users := fmupd sid userInfo (users r)\<rparr>) (rooms s2),
                              userSockets :=
                                fmupd sid \<lparr>userId = uid, userName = uname, roomId = rid\<rparr>
                                  (userSockets s2)\<rparr>))"

definition handleDisconnect ::
  "config \<Rightarrow> jsstring \<Rightarrow> room_manager \<Rightarrow> (jsstring \<times> user_info) option \<times> room_manager" where
  "handleDisconnect cfg sid s =
     (case fmlookup (userSockets s) sid of
        None \<Rightarrow> (None, s)
      | Some userInfo \<Rightarrow>
          (case leaveRoom cfg (roomId userInfo) sid s of
             (Some removedUser, s1) \<Rightarrow> (Some (roomId userInfo, removedUser), s1)
           | (None, s1) \<Rightarrow> (None, s1)))"

text \<open>
  The loop \<open>while (room.messages.length > MESSAGE.HISTORY_LIMIT) room.messages.shift()\<close>.
  \<open>shift\<close> leaves an empty array empty, so the loop does not end when the limit is negative:
  not returning is the value \<open>None\<close>.
\<close>

partial_function (option) enforceHistoryLimit :: "int \<Rightarrow> chat_message list \<Rightarrow> chat_message list option" where
  "enforceHistoryLimit limit ms =
     (if int (length ms) > limit then enforceHistoryLimit limit (tl ms) else Some ms)"

definition addMessage ::
  "config \<Rightarrow> jsstring \<Rightarrow> chat_message \<Rightarrow> room_manager \<Rightarrow> room_manager option" where
  "addMessage cfg rid msg s =
     (case fmlookup (rooms s) rid of
        None \<Rightarrow> Some s
      | Some r \<Rightarrow>
          (case enforceHistoryLimit (MESSAGE_HISTORY_LIMIT cfg) (messages r @ [msg]) of
             None \<Rightarrow> None
           | Some ms \<Rightarrow> Some (s\<lparr>rooms := fmupd rid (r\<lparr>messages := ms\<rparr>) (rooms s)\<rparr>)))"

fun addMessages ::
  "config \<Rightarrow> jsstring \<Rightarrow> chat_message list \<Rightarrow> room_manager \<Rightarrow> room_manager option" where
  "addMessages cfg rid [] s = Some s"
| "addMessages cfg rid (m # ms) s =
     (case addMessage cfg rid m s of None \<Rightarrow> None | Some s1 \<Rightarrow> addMessages cfg rid ms s1)"

definition history :: "jsstring \<Rightarrow> room_manager \<Rightarrow> chat_message list" where
  "history rid s = (case fmlookup (rooms s) rid of None \<Rightarrow> [] | Some r \<Rightarrow> messages r)"

text \<open>
  \<open>updateUserName\<close> writes the new name into the room's user object and into the entry of
  the reverse index, and returns a fresh \<open>{ id, name }\<close>.
\<close>

definition updateUserName ::
  "jsstring \<Rightarrow> jsval \<Rightarrow> room_manager \<Rightarrow> user_info option \<times> room_manager" where
  "updateUserName sid newName s =
     (case sanitizeUserName newName of
        None \<Rightarrow> (None, s)
      | Some sanitizedName \<Rightarrow>
          if sanitizedName = [] then (None, s)
          else (case fmlookup (userSockets s) sid of
                  None \<Rightarrow> (None, s)
                | Some userInfo \<Rightarrow>
                    (case fmlookup (rooms s) (roomId userInfo) of
                       None \<Rightarrow> (None, s)
                     | Some r \<Rightarrow>
                         (case fmlookup (users r) sid of
                            None \<Rightarrow> (None, s)
                          | Some roomUser \<Rightarrow>
                              (Some \<lparr>userId = userId userInfo, userName = sanitizedName\<rparr>,
                               s\<lparr>rooms :=
                                    fmupd (roomId userInfo)
                                      (r\<lparr>users := fmupd sid (roomUser\<lparr>userName := sanitizedName\<rparr>)
                                                     (users r)\<rparr>)
                                      (rooms s),
                                  userSockets :=
                                    fmupd sid (userInfo\<lparr>userName := sanitizedName\<rparr>)
                                      (userSockets s)\<rparr>)))))"

text \<open>
  The states the manager can be in: those that calls of its methods, with any arguments,
  and firings of pending cleanup timers produce from the empty manager. A call that throws
  has changed nothing (\<open>createRoom\<close> and \<open>joinRoom\<close> throw before their first write).
\<close>

inductive reachable :: "config \<Rightarrow> room_manager \<Rightarrow> bool" for cfg :: config where
  r_new: "reachable cfg newRoomManager"
| r_createRoom: "reachable cfg s \<Longrightarrow> createRoom cfg rnd now s = Inr (r, s') \<Longrightarrow> reachable cfg s'"
| r_joinRoom:
    "reachable cfg s \<Longrightarrow> joinRoom cfg rid sid preferredName rn s = Inr (u, s') \<Longrightarrow> reachable cfg s'"
| r_leaveRoom: "reachable cfg s \<Longrightarrow> reachable cfg (snd (leaveRoom cfg rid sid s))"
| r_handleDisconnect: "reachable cfg s \<Longrightarrow> reachable cfg (snd (handleDisconnect cfg sid s))"
| r_destroyRoom: "reachable cfg s \<Longrightarrow> reachable cfg (destroyRoom rid s)"
| r_updateUserName: "reachable cfg s \<Longrightarrow> reachable cfg (snd (updateUserName sid newName s))"
| r_addMessage: "reachable cfg s \<Longrightarrow> addMessage cfg rid msg s = Some s' \<Longrightarrow> reachable cfg s'"
| r_scheduleRoomCleanup: "reachable cfg s \<Longrightarrow> reachable cfg (scheduleRoomCleanup cfg rid s)"
| r_cancelRoomCleanup: "reachable cfg s \<Longrightarrow> reachable cfg (cancelRoomCleanup rid s)"
| r_timer: "reachable cfg s \<Longrightarrow> rid |\<in>| cleanupTimers s \<Longrightarrow> reachable cfg (cleanupTimerFired rid s)"

text \<open>Socket \<open>sid\<close> is a key of the \<open>users\<close> map of the live room \<open>rid\<close>.\<close>

definition is_member :: "room_manager \<Rightarrow> jsstring \<Rightarrow> jsstring \<Rightarrow> bool" where
  "is_member s rid sid \<longleftrightarrow> (\<exists>r. fmlookup (rooms s) rid = Some r \<and> sid |\<in>| fmdom (users r))"

text \<open>The reverse index has an entry for \<open>sid\<close> that names room \<open>rid\<close>.\<close>

definition indexed :: "room_manager \<Rightarrow> jsstring \<Rightarrow> jsstring \<Rightarrow> bool" where
  "indexed s rid sid \<longleftrightarrow> (\<exists>e. fmlookup (userSockets s) sid = Some e \<and> roomId e = rid)"

definition index_consistent :: "room_manager \<Rightarrow> bool" where
  "index_consistent s \<longleftrightarrow> (\<forall>rid sid. indexed s rid sid \<longleftrightarrow> is_member s rid sid)"

section \<open>Message validation (socket.js)\<close>

datatype validation = Invalid jsstring | Valid jsstring

text \<open>The character class \<open>[\x00-\x08\x0B\x0C\x0E-\x1F\x7F]\<close>.\<close>

definition isMessageControl :: "code_unit \<Rightarrow> bool" where
  "isMessageControl c \<longleftrightarrow> c \<le> 0x08 \<or> c = 0x0B \<or> c = 0x0C \<or> (0x0E \<le> c \<and> c \<le> 0x1F) \<or> c = 0x7F"

text \<open>The five replacements, in the order of the source: \<open>&\<close> first.\<close>

definition escapeHtml :: "jsstring \<Rightarrow> jsstring" where
  "escapeHtml s =
     replaceAll 0x27 (lit ''&#x27;'')
       (replaceAll 0x22 (lit ''&quot;'')
         (replaceAll 0x3E (lit ''&gt;'')
           (replaceAll 0x3C (lit ''&lt;'')
             (replaceAll 0x26 (lit ''&amp;'') s))))"

definition validateMessage :: "config \<Rightarrow> jsval \<Rightarrow> validation" where
  "validateMessage cfg input =
     (case input of
        JStr c \<Rightarrow>
          if c = [] then Invalid (lit ''Message cannot be empty'')
          else let trimmed = trim c in
            if length trimmed < MESSAGE_MIN_LENGTH then Invalid (lit ''Message too short'')
            else if int (length trimmed) > MESSAGE_MAX_LENGTH cfg
            then Invalid (lit ''Message too long (max '' @ toStringInt (MESSAGE_MAX_LENGTH cfg)
                            @ lit '' characters)'')
            else Valid (escapeHtml (filter (\<lambda>x. \<not> isMessageControl x) trimmed))
      | _ \<Rightarrow> Invalid (lit ''Message cannot be empty''))"

text \<open>
  The id of a message ends in a random base-36 suffix, an input here, as are the clock
  readings.
\<close>

definition createSystemMessage :: "int \<Rightarrow> jsstring \<Rightarrow> int \<Rightarrow> jsstring \<Rightarrow> chat_message" where
  "createSystemMessage now sfx date body =
     \<lparr>msgId = lit ''sys_'' @ toStringInt now @ lit ''_'' @ sfx, msgType = lit ''system'',
      senderId = lit ''system'', senderName = lit ''System'', content = body, timestamp = date\<rparr>"

section \<open>Event handlers (socket.js)\<close>

text \<open>
  A handler runs on the state of the server (the room manager and the two rate limiters)
  for the socket \<open>sid\<close>. It answers through the acknowledgement callback and emits events:
  \<open>socket.emit\<close> reaches the socket, \<open>io.to(room).emit\<close> the room, \<open>socket.to(room).emit\<close> the
  room without the socket. The body of each handler is inside \<open>try\<close>; the \<open>catch\<close> clause is a
  definition of its own, applied to the error and to the state at the throw. Console output
  is not modelled.
\<close>

record server =
  manager :: room_manager
  messageRateLimiter :: rate_limiter
  eventRateLimiter :: rate_limiter

definition newServer :: "config \<Rightarrow> server" where
  "newServer cfg =
     \<lparr>manager = newRoomManager,
      messageRateLimiter = newRateLimiter (RATE_LIMIT_MAX_MESSAGES cfg) (RATE_LIMIT_WINDOW_MS cfg),
      eventRateLimiter = newRateLimiter (EVENT_RATE_LIMIT cfg) (EVENT_RATE_WINDOW_MS cfg)\<rparr>"

datatype target = ToSocket jsstring | ToRoom jsstring | ToRoomExcept jsstring jsstring

datatype event =
    Identity jsstring jsstring
  | RoomInfo jsstring nat
  | MessageEvent chat_message
  | UserJoined jsstring jsstring nat
  | UserRenamed jsstring "jsstring option" jsstring
  | RateLimited jsstring int

datatype effect = Emit target event | SocketJoin jsstring jsstring

record reply =
  success :: bool
  error :: "jsstring option"
  reply_roomId :: "jsstring option"
  reply_name :: "jsstring option"

definition ok :: reply where
  "ok = \<lparr>success = True, error = None, reply_roomId = None, reply_name = None\<rparr>"

definition failure :: "jsstring \<Rightarrow> reply" where
  "failure msg = \<lparr>success = False, error = Some msg, reply_roomId = None, reply_name = None\<rparr>"

record outcome =
  reply :: reply
  effects :: "effect list"
  state :: server

definition COOLDOWN_MESSAGE :: jsstring where
  "COOLDOWN_MESSAGE = lit ''Slow down! You'' @ [0x27] @ lit ''re sending messages too fast.''"

subsection \<open>create-room\<close>

definition createRoomBody ::
  "config \<Rightarrow> jsstring \<Rightarrow> int \<Rightarrow> (nat \<Rightarrow> real) \<Rightarrow> int \<Rightarrow> server \<Rightarrow> (js_error \<times> server) + outcome" where
  "createRoomBody cfg sid now rnd date sv =
     (case check now sid (eventRateLimiter sv) of
        (rateCheck, el) \<Rightarrow>
          let sv1 = sv\<lparr>eventRateLimiter := el\<rparr> in
          if \<not> allowed rateCheck
          then Inr \<lparr>reply = failure (lit ''Too many requests. Please wait.''), effects = [],
                    state = sv1\<rparr>
          else (case createRoom cfg rnd date (manager sv1) of
                  Inl e \<Rightarrow> Inl (e, sv1)
                | Inr (r, m) \<Rightarrow>
                    Inr \<lparr>reply = ok\<lparr>reply_roomId := Some (room_id r)\<rparr>, effects = [],
                         state = sv1\<lparr>manager := m\<rparr>\<rparr>))"

definition createRoomCatch :: "js_error \<Rightarrow> server \<Rightarrow> outcome" where
  "createRoomCatch e sv = \<lparr>reply = failure (message e), effects = [], state = sv\<rparr>"

definition createRoomHandler ::
  "config \<Rightarrow> jsstring \<Rightarrow> int \<Rightarrow> (nat \<Rightarrow> real) \<Rightarrow> int \<Rightarrow> server \<Rightarrow> outcome" where
  "createRoomHandler cfg sid now rnd date sv =
     (case createRoomBody cfg sid now rnd date sv of
        Inl (e, sv1) \<Rightarrow> createRoomCatch e sv1
      | Inr out \<Rightarrow> out)"

subsection \<open>join-room\<close>

definition joinRoomBody ::
  "config \<Rightarrow> jsstring \<Rightarrow> int \<Rightarrow> real \<Rightarrow> jsstring \<Rightarrow> int \<Rightarrow> jsval \<Rightarrow> server \<Rightarrow>
     (js_error \<times> server) + outcome" where
  "joinRoomBody cfg sid now rn sfx date data sv =
     (case check now sid (eventRateLimiter sv) of
        (rateCheck, el) \<Rightarrow>
          let sv1 = sv\<lparr>eventRateLimiter := el\<rparr>;
              fail = (\<lambda>msg. Inr \<lparr>reply = failure msg, effects = [], state = sv1\<rparr>)
          in
          if \<not> allowed rateCheck then fail (lit ''Too many requests. Please wait.'')
          else
            (case (case data of
                     JStr d \<Rightarrow> Some (JStr d, JOther)
                   | JObj fs \<Rightarrow> Some (field ''roomId'' fs, field ''preferredName'' fs)
                   | JOther \<Rightarrow> None) of
               None \<Rightarrow> fail (lit ''Invalid request'')
             | Some (JStr rid, preferredName) \<Rightarrow>
                 if \<not> isRoomCode rid then fail (lit ''Invalid room code'')
                 else if \<not> roomExists rid (manager sv1) then fail (lit ''Room not found'')
                 else
                   (case joinRoom cfg rid sid preferredName rn (manager sv1) of
                      Inl e \<Rightarrow> Inl (e, sv1)
                    | Inr (userInfo, m) \<Rightarrow>
                        Inr \<lparr>reply = ok,
                             effects =
                               [SocketJoin sid rid,
                                Emit (ToSocket sid) (Identity (userId userInfo) (userName userInfo)),
                                Emit (ToSocket sid) (RoomInfo rid (getRoomUserCount rid m)),
                                Emit (ToRoomExcept rid sid)
                                  (MessageEvent (createSystemMessage now sfx date
                                     (userName userInfo @ lit '' joined the room''))),
                                Emit (ToRoomExcept rid sid)
                                  (UserJoined (userId userInfo) (userName userInfo)
                                     (getRoomUserCount rid m))],
                             state = sv1\<lparr>manager := m\<rparr>\<rparr>)
             | Some (_, preferredName) \<Rightarrow> fail (lit ''Invalid room code'')))"

definition joinRoomCatch :: "js_error \<Rightarrow> server \<Rightarrow> outcome" where
  "joinRoomCatch e sv = \<lparr>reply = failure (message e), effects = [], state = sv\<rparr>"

definition joinRoomHandler ::
  "config \<Rightarrow> jsstring \<Rightarrow> int \<Rightarrow> real \<Rightarrow> jsstring \<Rightarrow> int \<Rightarrow> jsval \<Rightarrow> server \<Rightarrow> outcome" where
  "joinRoomHandler cfg sid now rn sfx date data sv =
     (case joinRoomBody cfg sid now rn sfx date data sv of
        Inl (e, sv1) \<Rightarrow> joinRoomCatch e sv1
      | Inr out \<Rightarrow> out)"

subsection \<open>send-message\<close>

text \<open>
  The handler does not return when \<open>addMessage\<close> does not (\<open>None\<close>). Nothing in the body
  throws; its \<open>catch\<close> clause answers with a fixed text.
\<close>

definition sendMessageCatch :: "js_error \<Rightarrow> server \<Rightarrow> outcome" where
  "sendMessageCatch e sv = \<lparr>reply = failure (lit ''Failed to send message''), effects = [], state = sv\<rparr>"

definition sendMessageHandler ::
  "config \<Rightarrow> jsstring \<Rightarrow> int \<Rightarrow> jsstring \<Rightarrow> int \<Rightarrow> jsval \<Rightarrow> server \<Rightarrow> outcome option" where
  "sendMessageHandler cfg sid now sfx date data sv =
     (case data of
        JObj fs \<Rightarrow>
          (case field ''roomId'' fs of
             JStr rid \<Rightarrow>
               if \<not> isRoomCode rid
               then Some \<lparr>reply = failure (lit ''Invalid room''), effects = [], state = sv\<rparr>
               else
                 (case check now sid (messageRateLimiter sv) of
                    (rateCheck, ml) \<Rightarrow>
                      let sv1 = sv\<lparr>messageRateLimiter := ml\<rparr> in
                      if \<not> allowed rateCheck
                      then Some \<lparr>reply = failure (lit ''Rate limited''),
                                 effects = [Emit (ToSocket sid)
                                              (RateLimited COOLDOWN_MESSAGE (resetIn rateCheck))],
                                 state = sv1\<rparr>
                      else
                        (case getUserInfo sid (manager sv1) of
                           None \<Rightarrow>
                             Some \<lparr>reply = failure (lit ''Not in room''), effects = [], state = sv1\<rparr>
                         | Some userInfo \<Rightarrow>
                             if roomId userInfo \<noteq> rid
                             then Some \<lparr>reply = failure (lit ''Not in room''), effects = [],
                                        state = sv1\<rparr>
                             else
                               (case validateMessage cfg (field ''content'' fs) of
                                  Invalid err \<Rightarrow>
                                    Some \<lparr>reply = failure err, effects = [], state = sv1\<rparr>
                                | Valid sanitized \<Rightarrow>
                                    let msg = \<lparr>msgId = lit ''msg_'' @ toStringInt now @ lit ''_'' @ sfx,
                                               msgType = lit ''user'',
                                               senderId = userId userInfo,
                                               senderName = userName userInfo,
                                               content = sanitized, timestamp = date\<rparr>
                                    in (case addMessage cfg rid msg (manager sv1) of
                                          None \<Rightarrow> None
                                        | Some m \<Rightarrow>
                                            Some \<lparr>reply = ok,
                                                  effects = [Emit (ToRoom rid) (MessageEvent msg)],
                                                  state = sv1\<lparr>manager := m\<rparr>\<rparr>))))
           | _ \<Rightarrow> Some \<lparr>reply = failure (lit ''Invalid room''), effects = [], state = sv\<rparr>)
      | _ \<Rightarrow> Some \<lparr>reply = failure (lit ''Invalid request''), effects = [], state = sv\<rparr>)"

subsection \<open>update-username\<close>

text \<open>
  \<open>oldName\<close> is \<open>userInfo?.name\<close>, \<open>undefined\<close> (\<open>None\<close>) when the socket has no entry. The
  events go to the room named in the request.
\<close>

definition updateUsernameCatch :: "js_error \<Rightarrow> server \<Rightarrow> outcome" where
  "updateUsernameCatch e sv = \<lparr>reply = failure (lit ''Failed to update name''), effects = [], state = sv\<rparr>"

definition updateUsernameHandler ::
  "jsstring \<Rightarrow> int \<Rightarrow> jsstring \<Rightarrow> int \<Rightarrow> jsval \<Rightarrow> server \<Rightarrow> outcome" where
  "updateUsernameHandler sid now sfx date data sv =
     (let fail = (\<lambda>msg. \<lparr>reply = failure msg, effects = [], state = sv\<rparr>) in
      case data of
        JObj fs \<Rightarrow>
          (case field ''roomId'' fs of
             JStr rid \<Rightarrow>
               if \<not> isRoomCode rid then fail (lit ''Invalid room'')
               else
                 (case field ''newName'' fs of
                    JStr newName \<Rightarrow>
                      if newName = [] then fail (lit ''Invalid name'')
                      else
                        let sanitizedName = substring0 USERNAME_MAX_LENGTH (trim newName) in
                        if length sanitizedName < USERNAME_MIN_LENGTH
                        then fail (lit ''Name too short'')
                        else
                          let oldName = map_option userName (getUserInfo sid (manager sv)) in
                          (case updateUserName sid (JStr sanitizedName) (manager sv) of
                             (Some updated, m) \<Rightarrow>
                               \<lparr>reply = ok\<lparr>reply_name := Some (userName updated)\<rparr>,
                                effects =
                                  [Emit (ToSocket sid) (Identity (userId updated) (userName updated))]
                                  @ (if oldName \<noteq> Some (userName updated)
                                     then [Emit (ToRoom rid)
                                             (MessageEvent (createSystemMessage now sfx date
                                                ((case oldName of None \<Rightarrow> lit ''undefined''
                                                                | Some n \<Rightarrow> n)
                                                 @ lit '' is now '' @ userName updated)))]
                                     else [])
                                  @ [Emit (ToRoom rid)
                                       (UserRenamed (userId updated) oldName (userName updated))],
                                state = sv\<lparr>manager := m\<rparr>\<rparr>
                           | (None, m) \<Rightarrow>
                               \<lparr>reply = failure (lit ''Failed to update name''), effects = [],
                                state = sv\<lparr>manager := m\<rparr>\<rparr>)
                  | _ \<Rightarrow> fail (lit ''Invalid name''))
           | _ \<Rightarrow> fail (lit ''Invalid room''))
      | _ \<Rightarrow> fail (lit ''Invalid request''))"

subsection \<open>Requests without an acknowledgement\<close>

text \<open>
  The handlers above give the reply that the acknowledgement callback of the request is
  called with. A client can emit an event without an acknowledgement, and then the
  parameter \<open>callback\<close> of the handler is \<open>undefined\<close>.
\<close>

datatype callback = Ack | NoAck

text \<open>
  The call \<open>callback(r)\<close>. To call \<open>undefined\<close> throws a \<open>TypeError\<close>; of an exception only
  the message is kept.
\<close>

definition call :: "callback \<Rightarrow> reply \<Rightarrow> js_error + reply" where
  "call cb r =
     (case cb of
        Ack \<Rightarrow> Inr r
      | NoAck \<Rightarrow> Inl (Error (lit ''callback is not a function'')))"

text \<open>
  How the run of a handler ends: it has called the callback with a reply; or it has
  returned without a call; or an exception has left the handler. The events emitted and
  the state written before that stay.
\<close>

datatype completion =
    Answered outcome
  | Unanswered "effect list" server
  | Escaped js_error "effect list" server

text \<open>
  The \<open>catch\<close> clause calls \<open>callback\<close> with its reply \<open>c\<close>, after the events \<open>emitted\<close> inside
  \<open>try\<close>. It is not inside a \<open>try\<close> of its own.
\<close>

definition catchCall :: "callback \<Rightarrow> outcome \<Rightarrow> effect list \<Rightarrow> completion" where
  "catchCall cb c emitted =
     (case call cb (reply c) of
        Inr r \<Rightarrow> Answered (c\<lparr>effects := emitted\<rparr>)
      | Inl e \<Rightarrow> Escaped e emitted (state c))"

text \<open>
  In \<open>create-room\<close>, \<open>join-room\<close> and \<open>update-username\<close> every path of the body ends with a
  call of \<open>callback\<close>, inside \<open>try\<close>, and no call is guarded.
\<close>

definition createRoomEvent ::
  "config \<Rightarrow> jsstring \<Rightarrow> int \<Rightarrow> (nat \<Rightarrow> real) \<Rightarrow> int \<Rightarrow> callback \<Rightarrow> server \<Rightarrow> completion" where
  "createRoomEvent cfg sid now rnd date cb sv =
     (case createRoomBody cfg sid now rnd date sv of
        Inl (e, sv1) \<Rightarrow> catchCall cb (createRoomCatch e sv1) []
      | Inr out \<Rightarrow>
          (case call cb (reply out) of
             Inr r \<Rightarrow> Answered out
           | Inl e \<Rightarrow> catchCall cb (createRoomCatch e (state out)) (effects out)))"

definition joinRoomEvent ::
  "config \<Rightarrow> jsstring \<Rightarrow> int \<Rightarrow> real \<Rightarrow> jsstring \<Rightarrow> int \<Rightarrow> jsval \<Rightarrow> callback \<Rightarrow> server \<Rightarrow>
     completion" where
  "joinRoomEvent cfg sid now rn sfx date data cb sv =
     (case joinRoomBody cfg sid now rn sfx date data sv of
        Inl (e, sv1) \<Rightarrow> catchCall cb (joinRoomCatch e sv1) []
      | Inr out \<Rightarrow>
          (case call cb (reply out) of
             Inr r \<Rightarrow> Answered out
           | Inl e \<Rightarrow> catchCall cb (joinRoomCatch e (state out)) (effects out)))"

definition updateUsernameEvent ::
  "jsstring \<Rightarrow> int \<Rightarrow> jsstring \<Rightarrow> int \<Rightarrow> jsval \<Rightarrow> callback \<Rightarrow> server \<Rightarrow> completion" where
  "updateUsernameEvent sid now sfx date data cb sv =
     (let out = updateUsernameHandler sid now sfx date data sv in
      case call cb (reply out) of
        Inr r \<Rightarrow> Answered out
      | Inl e \<Rightarrow> catchCall cb (updateUsernameCatch e (state out)) (effects out))"

text \<open>In \<open>send-message\<close> every call is \<open>if (callback) callback(...)\<close>.\<close>

definition sendMessageEvent ::
  "config \<Rightarrow> jsstring \<Rightarrow> int \<Rightarrow> jsstring \<Rightarrow> int \<Rightarrow> jsval \<Rightarrow> callback \<Rightarrow> server \<Rightarrow>
     completion option" where
  "sendMessageEvent cfg sid now sfx date data cb sv =
     (case sendMessageHandler cfg sid now sfx date data sv of
        None \<Rightarrow> None
      | Some out \<Rightarrow>
          (case cb of
             Ack \<Rightarrow> Some (Answered out)
           | NoAck \<Rightarrow> Some (Unanswered (effects out) (state out))))"

section \<open>Notions used by the properties\<close>

text \<open>
  What it means for a string to be escaped: every \<open>&\<close> in it begins one of the five
  entities. \<open>escapeChar\<close> is what the five replacements of \<open>escapeHtml\<close> together make of one
  code unit.
\<close>

definition entities :: "jsstring list" where
  "entities = [lit ''&amp;'', lit ''&lt;'', lit ''&gt;'', lit ''&quot;'', lit ''&#x27;'']"

fun escaped :: "jsstring \<Rightarrow> bool" where
  "escaped [] = True"
| "escaped (c # cs) = ((c = 0x26 \<longrightarrow> (\<exists>e \<in> set entities. prefix e (c # cs))) \<and> escaped cs)"

definition escapeChar :: "code_unit \<Rightarrow> jsstring" where
  "escapeChar c =
     (if c = 0x26 then lit ''&amp;'' else if c = 0x3C then lit ''&lt;''
      else if c = 0x3E then lit ''&gt;'' else if c = 0x22 then lit ''&quot;''
      else if c = 0x27 then lit ''&#x27;'' else [c])"

text \<open>The message object that the \<open>send-message\<close> handler builds.\<close>

definition userMessage :: "int \<Rightarrow> jsstring \<Rightarrow> int \<Rightarrow> socket_entry \<Rightarrow> jsstring \<Rightarrow> chat_message" where
  "userMessage now sfx date userInfo sanitized =
     \<lparr>msgId = lit ''msg_'' @ toStringInt now @ lit ''_'' @ sfx, msgType = lit ''user'',
      senderId = userId userInfo, senderName = userName userInfo,
      content = sanitized, timestamp = date\<rparr>"

section \<open>Example inputs\<close>

definition burst :: "(jsstring \<times> int) list" where
  "burst = [(lit ''a'', 1), (lit ''b'', 2), (lit ''a'', 3), (lit ''a'', 4), (lit ''a'', 5),
     (lit ''a'', 6), (lit ''a'', 7), (lit ''b'', 8), (lit ''a'', 9), (lit ''a'', 10),
     (lit ''a'', 11), (lit ''a'', 9998), (lit ''a'', 9999)]"

definition sockA :: jsstring where "sockA = lit ''socketA1xyz''"
definition sockB :: jsstring where "sockB = lit ''socketB2xyz''"

definition ex_room :: room where
  "ex_room = \<lparr>room_id = lit ''5500'', users = fmempty, createdAt = 0, messages = []\<rparr>"

definition ex_created :: room_manager where
  "ex_created = \<lparr>rooms = fmupd (lit ''5500'') ex_room fmempty, userSockets = fmempty,
                  cleanupTimers = {||}\<rparr>"

definition ann :: user_info where
  "ann = \<lparr>userId = lit ''user_socketA1'', userName = lit ''Ann''\<rparr>"

definition ex_joined :: room_manager where
  "ex_joined =
     \<lparr>rooms = fmupd (lit ''5500'') (ex_room\<lparr>users := fmupd sockA ann fmempty\<rparr>) fmempty,
      userSockets = fmupd sockA \<lparr>userId = lit ''user_socketA1'', userName = lit ''Ann'',
                                  roomId = lit ''5500''\<rparr> fmempty,
      cleanupTimers = {||}\<rparr>"

definition full_config :: config where
  "full_config = default_config\<lparr>ROOM_MAX_USERS := 1\<rparr>"

definition ex_server :: server where
  "ex_server = \<lparr>manager = ex_joined, messageRateLimiter = newRateLimiter 10 10000,
                 eventRateLimiter = newRateLimiter 10 60000\<rparr>"

text \<open>A source of draws that always gives the same value.\<close>

definition always :: "real \<Rightarrow> nat \<Rightarrow> real" where
  "always r k = r"

definition room9999 :: room where
  "room9999 = \<lparr>room_id = lit ''9999'', users = fmempty, createdAt = 0, messages = []\<rparr>"

definition ex_msg :: "string \<Rightarrow> chat_message" where
  "ex_msg t = \<lparr>msgId = lit ''msg_'' @ lit t, msgType = lit ''user'', senderId = lit ''user_socketA1'',
            senderName = lit ''Ann'', content = lit t, timestamp = 0\<rparr>"

definition small_history :: config where
  "small_history = default_config\<lparr>MESSAGE_HISTORY_LIMIT := 2\<rparr>"

definition ann_entry :: socket_entry where
  "ann_entry = \<lparr>userId = lit ''user_socketA1'', userName = lit ''Ann'', roomId = lit ''5500''\<rparr>"

definition script_payload :: jsval where
  "script_payload = JObj [(''roomId'', JStr (lit ''5500'')), (''content'', JStr (lit ''<script>''))]"

definition outsider_payload :: jsval where
  "outsider_payload = JObj [(''roomId'', JStr (lit ''5500'')), (''content'', JStr (lit ''hello''))]"

definition blank_payload :: jsval where
  "blank_payload = JObj [(''roomId'', JStr (lit ''5500'')), (''content'', JStr (lit ''   ''))]"



text \<open>
  Room \<open>5500\<close> after the socket \<open>socketB2xyz\<close> has joined it under a generated name, and the
  events of that join.
\<close>

definition bob :: user_info where
  "bob = \<lparr>userId = lit ''user_socketB2'', userName = lit ''User_5500''\<rparr>"

definition ex_rejoined :: room_manager where
  "ex_rejoined =
     \<lparr>rooms = fmupd (lit ''5500'')
                (ex_room\<lparr>users := fmupd sockB bob (fmupd sockA ann fmempty)\<rparr>) fmempty,
      userSockets =
        fmupd sockB \<lparr>userId = lit ''user_socketB2'', userName = lit ''User_5500'',
                      roomId = lit ''5500''\<rparr>
          (fmupd sockA \<lparr>userId = lit ''user_socketA1'', userName = lit ''Ann'',
                         roomId = lit ''5500''\<rparr> fmempty),
      cleanupTimers = {||}\<rparr>"

definition ex_join_events :: "effect list" where
  "ex_join_events =
     [SocketJoin sockB (lit ''5500''),
      Emit (ToSocket sockB) (Identity (lit ''user_socketB2'') (lit ''User_5500'')),
      Emit (ToSocket sockB) (RoomInfo (lit ''5500'') 2),
      Emit (ToRoomExcept (lit ''5500'') sockB)
        (MessageEvent (createSystemMessage 0 [] 0 (lit ''User_5500 joined the room''))),
      Emit (ToRoomExcept (lit ''5500'') sockB)
        (UserJoined (lit ''user_socketB2'') (lit ''User_5500'') 2)]"

section \<open>The arithmetic of doubles\<close>

text \<open>\<open>exponent x\<close> is the exponent of \<open>x\<close>, and there is no other.\<close>

lemma two_power_le_real:
  "(2::nat) ^ k \<le> n \<Longrightarrow> (2::real) ^ k \<le> real n"
  by (metis of_nat_le_iff of_nat_numeral of_nat_power)

lemma real_less_two_power:
  "n < (2::nat) ^ k \<Longrightarrow> real n + 1 \<le> (2::real) ^ k"
proof -
  assume "n < (2::nat) ^ k"
  then have "n + 1 \<le> 2 ^ k" by simp
  then have "real (n + 1) \<le> real (2 ^ k)" by (rule iffD2[OF of_nat_le_iff])
  then show ?thesis by simp
qed

lemma powi_nat: "(2::real) powi (int k) = 2 ^ k"
  by (simp add: power_int_def)

lemma powi_neg_nat: "(2::real) powi (- int k) = 1 / 2 ^ k"
  by (simp add: power_int_minus powi_nat field_simps)

lemma exponent_ge1:
  assumes "1 \<le> x"
  shows "0 < floorlog 2 (nat \<lfloor>x\<rfloor>)"
    and "(2::real) ^ (floorlog 2 (nat \<lfloor>x\<rfloor>) - 1) \<le> x"
    and "x < (2::real) ^ floorlog 2 (nat \<lfloor>x\<rfloor>)"
proof -
  define n where "n = nat \<lfloor>x\<rfloor>"
  have f1: "1 \<le> \<lfloor>x\<rfloor>" using assms by linarith
  have im: "int n = \<lfloor>x\<rfloor>" unfolding n_def using f1 by linarith
  have n0: "0 < n" using im f1 by linarith
  have "real_of_int (int n) = real_of_int \<lfloor>x\<rfloor>" using im by (rule arg_cong)
  then have rn: "real n = of_int \<lfloor>x\<rfloor>" by simp
  have nx: "real n \<le> x" unfolding rn by linarith
  have xn: "x < real n + 1" unfolding rn by linarith
  show "0 < floorlog 2 (nat \<lfloor>x\<rfloor>)" using n0 unfolding n_def by (simp add: floorlog_def)
  have b: "(2::nat) ^ (floorlog 2 n - 1) \<le> n" "n < 2 ^ floorlog 2 n"
    using floorlog_bounds[of n 2] n0 by simp_all
  have "(2::real) ^ (floorlog 2 n - 1) \<le> real n" using b(1) by (rule two_power_le_real)
  then show "(2::real) ^ (floorlog 2 (nat \<lfloor>x\<rfloor>) - 1) \<le> x"
    unfolding n_def[symmetric] using nx by (rule order_trans)
  have "real n + 1 \<le> (2::real) ^ floorlog 2 n" using b(2) by (rule real_less_two_power)
  with xn show "x < (2::real) ^ floorlog 2 (nat \<lfloor>x\<rfloor>)"
    unfolding n_def[symmetric] by (rule less_le_trans)
qed

lemma exponent_lt1:
  assumes "0 < x" "x < 1"
  shows "0 < floorlog 2 (nat (\<lceil>1 / x\<rceil> - 1))"
    and "1 / (2::real) ^ floorlog 2 (nat (\<lceil>1 / x\<rceil> - 1)) \<le> x"
    and "x < 1 / (2::real) ^ (floorlog 2 (nat (\<lceil>1 / x\<rceil> - 1)) - 1)"
proof -
  define m where "m = nat (\<lceil>1 / x\<rceil> - 1)"
  have x1: "1 < 1 / x" using assms by simp
  then have c2: "2 \<le> \<lceil>1 / x\<rceil>" by linarith
  have im: "int m = \<lceil>1 / x\<rceil> - 1" unfolding m_def using c2 by linarith
  have m0: "0 < m" using im c2 by linarith
  have "real_of_int (int m) = real_of_int (\<lceil>1 / x\<rceil> - 1)" using im by (rule arg_cong)
  then have m1: "real m + 1 = of_int \<lceil>1 / x\<rceil>" by simp
  have xm: "1 / x \<le> real m + 1" unfolding m1 by linarith
  have mx: "real m < 1 / x" using m1 by linarith
  show "0 < floorlog 2 (nat (\<lceil>1 / x\<rceil> - 1))"
    using m0 unfolding m_def by (simp add: floorlog_def)
  have b: "(2::nat) ^ (floorlog 2 m - 1) \<le> m" "m < 2 ^ floorlog 2 m"
    using floorlog_bounds[of m 2] m0 by simp_all
  have "real m + 1 \<le> (2::real) ^ floorlog 2 m" using b(2) by (rule real_less_two_power)
  with xm have "1 / x \<le> (2::real) ^ floorlog 2 m" by (rule order_trans)
  then have "1 \<le> (2::real) ^ floorlog 2 m * x" using assms(1) by (simp add: field_simps)
  then show "1 / (2::real) ^ floorlog 2 (nat (\<lceil>1 / x\<rceil> - 1)) \<le> x"
    unfolding m_def[symmetric] by (simp add: field_simps)
  have "(2::real) ^ (floorlog 2 m - 1) \<le> real m" using b(1) by (rule two_power_le_real)
  then have "(2::real) ^ (floorlog 2 m - 1) < 1 / x" using mx by (rule le_less_trans)
  then have "(2::real) ^ (floorlog 2 m - 1) * x < 1" using assms(1) by (simp add: field_simps)
  then show "x < 1 / (2::real) ^ (floorlog 2 (nat (\<lceil>1 / x\<rceil> - 1)) - 1)"
    unfolding m_def[symmetric] by (simp add: field_simps)
qed

lemma exponent_bounds:
  assumes "0 < x"
  shows "2 powi exponent x \<le> x" and "x < 2 powi (exponent x + 1)"
proof -
  show "2 powi exponent x \<le> x"
  proof (cases "1 \<le> x")
    case True
    have "exponent x = int (floorlog 2 (nat \<lfloor>x\<rfloor>) - 1)"
      using True exponent_ge1(1)[OF True] unfolding exponent_def bitlen_def by simp
    then show ?thesis using exponent_ge1(2)[OF True] by (simp only: powi_nat)
  next
    case False
    then have lt: "x < 1" by simp
    have "exponent x = - int (floorlog 2 (nat (\<lceil>1 / x\<rceil> - 1)))"
      using False unfolding exponent_def bitlen_def by simp
    then show ?thesis using exponent_lt1(2)[OF assms lt] by (simp only: powi_neg_nat)
  qed
  show "x < 2 powi (exponent x + 1)"
  proof (cases "1 \<le> x")
    case True
    have "exponent x + 1 = int (floorlog 2 (nat \<lfloor>x\<rfloor>))"
      using True unfolding exponent_def bitlen_def by simp
    then show ?thesis using exponent_ge1(3)[OF True] by (simp only: powi_nat)
  next
    case False
    then have lt: "x < 1" by simp
    have "exponent x + 1 = - int (floorlog 2 (nat (\<lceil>1 / x\<rceil> - 1)) - 1)"
      using False exponent_lt1(1)[OF assms lt] unfolding exponent_def bitlen_def by simp
    then show ?thesis using exponent_lt1(3)[OF assms lt] by (simp only: powi_neg_nat)
  qed
qed


lemma exponent_unique:
  assumes "0 < x" "2 powi e \<le> x" "x < 2 powi (e + 1)"
  shows "exponent x = e"
proof -
  have "2 powi exponent x < (2::real) powi (e + 1)"
    using exponent_bounds(1)[OF assms(1)] assms(3) by (rule le_less_trans)
  then have a: "exponent x < e + 1"
    using power_int_increasing[of "e + 1" "exponent x" "2::real"] by (cases "exponent x < e + 1") auto
  have "2 powi e < (2::real) powi (exponent x + 1)"
    using assms(2) exponent_bounds(2)[OF assms(1)] by (rule le_less_trans)
  then have b: "e < exponent x + 1"
    using power_int_increasing[of "exponent x + 1" e "2::real"] by (cases "e < exponent x + 1") auto
  from a b show ?thesis by simp
qed

lemma exponent_mono:
  assumes "0 < x" "x \<le> y"
  shows "exponent x \<le> exponent y"
proof -
  have y: "0 < y" using assms by simp
  have "2 powi exponent x \<le> y"
    using exponent_bounds(1)[OF assms(1)] assms(2) by (rule order_trans)
  then have "2 powi exponent x < (2::real) powi (exponent y + 1)"
    using exponent_bounds(2)[OF y] by (rule le_less_trans)
  then have "exponent x < exponent y + 1"
    using power_int_increasing[of "exponent y + 1" "exponent x" "2::real"]
    by (cases "exponent x < exponent y + 1") auto
  then show ?thesis by simp
qed

text \<open>Rounding to the nearest integer is monotone and leaves the integers where they are.\<close>

lemma roundTiesToEven_int: "roundTiesToEven (of_int n) = n"
  unfolding roundTiesToEven_def by simp

lemma roundTiesToEven_near:
  assumes "\<bar>q - of_int n\<bar> < 1 / 2"
  shows "roundTiesToEven q = n"
proof (cases "of_int n \<le> q")
  case True
  then have "\<lfloor>q\<rfloor> = n" using assms by linarith
  then show ?thesis unfolding roundTiesToEven_def Let_def using assms True by simp
next
  case False
  then have f: "\<lfloor>q\<rfloor> = n - 1" using assms by linarith
  have "q - of_int (n - 1) > 1 / 2" using assms False by simp
  then show ?thesis unfolding roundTiesToEven_def Let_def f by simp
qed

lemma roundTiesToEven_bounds:
  "\<lfloor>q\<rfloor> \<le> roundTiesToEven q" "roundTiesToEven q \<le> \<lfloor>q\<rfloor> + 1"
  unfolding roundTiesToEven_def Let_def by simp_all

lemma roundTiesToEven_mono:
  assumes "q \<le> q'"
  shows "roundTiesToEven q \<le> roundTiesToEven q'"
proof (cases "\<lfloor>q\<rfloor> = \<lfloor>q'\<rfloor>")
  case True
  have "q - of_int \<lfloor>q'\<rfloor> \<le> q' - of_int \<lfloor>q'\<rfloor>" using assms by simp
  then show ?thesis unfolding roundTiesToEven_def Let_def True by auto
next
  case False
  have "\<lfloor>q\<rfloor> \<le> \<lfloor>q'\<rfloor>" using assms by (rule floor_mono)
  then have "\<lfloor>q\<rfloor> + 1 \<le> \<lfloor>q'\<rfloor>" using False by simp
  then show ?thesis
    using roundTiesToEven_bounds(2)[of q] roundTiesToEven_bounds(1)[of q'] by linarith
qed

lemma roundTiesToEven_le:
  assumes "q \<le> of_int n"
  shows "roundTiesToEven q \<le> n"
  using roundTiesToEven_mono[OF assms] by (simp only: roundTiesToEven_int)

lemma roundTiesToEven_ge:
  assumes "of_int n \<le> q"
  shows "n \<le> roundTiesToEven q"
  using roundTiesToEven_mono[OF assms] by (simp only: roundTiesToEven_int)

text \<open>
  Rounding to the nearest double is monotone: within a binade because rounding to the
  nearest integer is; across binades because the power of two between them is a double.
\<close>

lemma ulp_pos: "0 < ulp x"
  unfolding ulp_def by simp

lemma fl_pos: "0 < x \<Longrightarrow> fl x = of_int (roundTiesToEven (x / ulp x)) * ulp x"
  unfolding fl_def by simp

lemma fl_nonneg:
  assumes "0 \<le> x"
  shows "0 \<le> fl x"
proof (cases "x = 0")
  case True
  then show ?thesis by (simp add: fl_def)
next
  case False
  then have x: "0 < x" using assms by simp
  have "0 \<le> x / ulp x" using x ulp_pos[of x] by simp
  then have "of_int 0 \<le> x / ulp x" by simp
  then have "0 \<le> roundTiesToEven (x / ulp x)" by (rule roundTiesToEven_ge)
  then show ?thesis unfolding fl_pos[OF x] using ulp_pos[of x] by simp
qed

lemma fl_le_multiple:
  assumes "0 < x" "x \<le> of_int n * ulp x"
  shows "fl x \<le> of_int n * ulp x"
proof -
  have "x / ulp x \<le> of_int n" using assms(2) ulp_pos[of x] by (simp add: field_simps)
  then have "roundTiesToEven (x / ulp x) \<le> n" by (rule roundTiesToEven_le)
  then have "real_of_int (roundTiesToEven (x / ulp x)) \<le> of_int n" by simp
  then show ?thesis unfolding fl_pos[OF assms(1)] using ulp_pos[of x]
    by (simp only: mult_le_cancel_right_pos)
qed

lemma fl_ge_multiple:
  assumes "0 < x" "of_int n * ulp x \<le> x"
  shows "of_int n * ulp x \<le> fl x"
proof -
  have "of_int n \<le> x / ulp x" using assms(2) ulp_pos[of x] by (simp add: field_simps)
  then have "n \<le> roundTiesToEven (x / ulp x)" by (rule roundTiesToEven_ge)
  then have "real_of_int n \<le> of_int (roundTiesToEven (x / ulp x))" by simp
  then show ?thesis unfolding fl_pos[OF assms(1)] using ulp_pos[of x]
    by (simp only: mult_le_cancel_right_pos)
qed

lemma powi_multiple:
  assumes "j \<le> k"
  shows "(2::real) powi k = of_int (2 ^ nat (k - j)) * 2 powi j"
proof -
  have "(2::real) powi k = 2 powi (k - j) * 2 powi j"
    by (simp flip: power_int_add)
  also have "(2::real) powi (k - j) = of_int (2 ^ nat (k - j))"
    using assms by (simp add: power_int_def)
  finally show ?thesis .
qed

lemma fl_mono:
  assumes "0 \<le> x" "x \<le> y"
  shows "fl x \<le> fl y"
proof (cases "x = 0")
  case True
  have "0 \<le> fl y" using assms by (intro fl_nonneg) simp
  then show ?thesis using True by (simp add: fl_def)
next
  case False
  then have x: "0 < x" using assms by simp
  then have y: "0 < y" using assms by simp
  define a where "a = max (exponent x) (- 1022)"
  define b where "b = max (exponent y) (- 1022)"
  have ab: "a \<le> b" unfolding a_def b_def using exponent_mono[OF x assms(2)] by simp
  have ux: "ulp x = 2 powi (a - 52)" unfolding ulp_def a_def ..
  have uy: "ulp y = 2 powi (b - 52)" unfolding ulp_def b_def ..
  show ?thesis
  proof (cases "a = b")
    case True
    then have u: "ulp x = ulp y" unfolding ux uy by simp
    have "x / ulp y \<le> y / ulp y" using assms(2) ulp_pos[of y] by (simp add: field_simps)
    then have "roundTiesToEven (x / ulp y) \<le> roundTiesToEven (y / ulp y)"
      by (rule roundTiesToEven_mono)
    then have "real_of_int (roundTiesToEven (x / ulp y)) \<le> of_int (roundTiesToEven (y / ulp y))"
      by simp
    then show ?thesis unfolding fl_pos[OF x] fl_pos[OF y] u using ulp_pos[of y]
      by (simp only: mult_le_cancel_right_pos)
  next
    case False
    then have lt: "a + 1 \<le> b" using ab by simp
    then have bey: "b = exponent y" unfolding a_def b_def by linarith
    have "exponent x + 1 \<le> a + 1" unfolding a_def by simp
    then have "(2::real) powi (exponent x + 1) \<le> 2 powi (a + 1)"
      by (intro power_int_increasing) simp_all
    then have xa: "x \<le> 2 powi (a + 1)" using exponent_bounds(2)[OF x] by simp
    have ma: "(2::real) powi (a + 1) = of_int (2 ^ nat (a + 1 - (a - 52))) * ulp x"
      unfolding ux by (rule powi_multiple) simp
    have "fl x \<le> of_int (2 ^ nat (a + 1 - (a - 52))) * ulp x"
      using x xa unfolding ma by (rule fl_le_multiple)
    then have 1: "fl x \<le> 2 powi (a + 1)" unfolding ma .
    have 2: "(2::real) powi (a + 1) \<le> 2 powi b"
      using lt by (intro power_int_increasing) simp_all
    have yb: "2 powi b \<le> y" unfolding bey by (rule exponent_bounds(1)[OF y])
    have mb: "(2::real) powi b = of_int (2 ^ nat (b - (b - 52))) * ulp y"
      unfolding uy by (rule powi_multiple) simp
    have "of_int (2 ^ nat (b - (b - 52))) * ulp y \<le> fl y"
      using y yb unfolding mb by (rule fl_ge_multiple)
    then have 3: "2 powi b \<le> fl y" unfolding mb .
    from 1 2 3 show ?thesis by linarith
  qed
qed

text \<open>The value of \<open>fl\<close> at a number whose binade is known.\<close>

lemma fl_eval:
  assumes "0 < x" "2 powi e \<le> x" "x < 2 powi (e + 1)" "- 1022 \<le> e"
    and "\<bar>x * 2 powi (52 - e) - of_int n\<bar> < 1 / 2"
  shows "fl x = of_int n * 2 powi (e - 52)"
proof -
  have e: "exponent x = e" using assms(1-3) by (rule exponent_unique)
  have u: "ulp x = 2 powi (e - 52)" unfolding ulp_def e using assms(4) by simp
  have "x / 2 powi (e - 52) = x * 2 powi (52 - e)"
    by (simp add: power_int_diff field_simps)
  then have "roundTiesToEven (x / 2 powi (e - 52)) = n"
    using assms(5) by (simp only: roundTiesToEven_near)
  then show ?thesis unfolding fl_pos[OF assms(1)] u by simp
qed

lemma fl_exact:
  assumes "0 < x" "2 powi e \<le> x" "x < 2 powi (e + 1)" "- 1022 \<le> e"
    and "x * 2 powi (52 - e) = of_int n"
  shows "fl x = x"
proof -
  have "\<bar>x * 2 powi (52 - e) - of_int n\<bar> < 1 / 2" using assms(5) by simp
  with assms(1-4) have "fl x = of_int n * 2 powi (e - 52)" by (rule fl_eval)
  also have "\<dots> = x * (2 powi (52 - e) * 2 powi (e - 52))"
    unfolding assms(5)[symmetric] by simp
  also have "2 powi (52 - e) * 2 powi (e - 52) = (1::real)"
    by (simp flip: power_int_add)
  finally show ?thesis by simp
qed

text \<open>The largest double below \<open>1\<close> is \<open>1 - 2 ^ - 53\<close>.\<close>

lemma double_below_one:
  assumes "isDouble r" "0 \<le> r" "r < 1"
  shows "r \<le> 1 - 1 / 2 ^ 53"
proof (cases "r = 0")
  case True
  then show ?thesis by simp
next
  case False
  then have r: "0 < r" using assms(2) by simp
  have lt1: "2 powi exponent r < (1::real)"
    using exponent_bounds(1)[OF r] assms(3) by (rule le_less_trans)
  have "exponent r < 0"
  proof (rule ccontr)
    assume "\<not> exponent r < 0"
    then have "0 \<le> exponent r" by simp
    then have "(2::real) powi 0 \<le> 2 powi exponent r"
      by (intro power_int_increasing) simp_all
    then show False using lt1 by simp
  qed
  then have e: "exponent r \<le> - 1" by simp
  show ?thesis
  proof (cases "exponent r = - 1")
    case True
    have u: "ulp r = 2 powi (- 53)" unfolding ulp_def True by simp
    have one: "(1::real) = of_int (2 ^ 53) * 2 powi (- 53)"
      by (simp add: power_int_minus)
    define n where "n = roundTiesToEven (r / ulp r)"
    have rn: "r = of_int n * 2 powi (- 53)"
      using assms(1) unfolding isDouble_def fl_pos[OF r] n_def u by simp
    have "of_int n * 2 powi (- 53) < of_int (2 ^ 53) * (2::real) powi (- 53)"
      using assms(3) unfolding rn[symmetric] one[symmetric] .
    then have "real_of_int n < of_int (2 ^ 53)" by (simp only: mult_less_cancel_right_pos zero_less_power_int zero_less_numeral)
    then have "n < 2 ^ 53" by (simp only: of_int_less_iff)
    then have "n \<le> 2 ^ 53 - 1" by simp
    then have "real_of_int n \<le> of_int (2 ^ 53 - 1)" by (simp only: of_int_le_iff)
    then have "real_of_int n * 2 powi (- 53) \<le> of_int (2 ^ 53 - 1) * 2 powi (- 53)"
      by (simp only: mult_le_cancel_right_pos zero_less_power_int zero_less_numeral)
    then show ?thesis unfolding rn[symmetric] by (simp add: power_int_minus field_simps)
  next
    case False
    then have "exponent r + 1 \<le> - 1" using e by simp
    then have "(2::real) powi (exponent r + 1) \<le> 2 powi (- 1)"
      by (intro power_int_increasing) simp_all
    then have "r < 2 powi (- 1)" using exponent_bounds(2)[OF r] by simp
    then show ?thesis by (simp add: power_int_minus)
  qed
qed

text \<open>
  The code of every draw is in the range from 1000 to 9999: the largest product is rounded
  to the double before 9000, and the largest sum is the double before 10000.
\<close>

lemma fl_1000: "fl 1000 = 1000"
  by (rule fl_exact[of _ 9 "1000 * 2 ^ 43"]) (simp_all add: power_int_minus)

lemma fl_top_product: "fl (9000 * (1 - 1 / 2 ^ 53)) = 9000 - 1 / 2 ^ 39"
proof -
  have "fl (9000 * (1 - 1 / 2 ^ 53)) = of_int (9000 * 2 ^ 39 - 1) * 2 powi (13 - 52)"
    by (rule fl_eval) (simp_all add: power_int_minus)
  then show ?thesis by (simp add: power_int_minus field_simps)
qed

lemma fl_top_sum: "fl (10000 - 1 / 2 ^ 39) = 10000 - 1 / 2 ^ 39"
  by (rule fl_exact[of _ 13 "10000 * 2 ^ 39 - 1"]) (simp_all add: power_int_minus)

lemma randomCode_range:
  assumes "isDouble r" "0 \<le> r" "r < 1"
  shows "1000 \<le> randomCode r" and "randomCode r \<le> 9999"
proof -
  have p0: "0 \<le> r * 9000" using assms(2) by simp
  have f0: "0 \<le> fl (r * 9000)" using p0 by (rule fl_nonneg)
  have "fl 1000 \<le> fl (1000 + fl (r * 9000))" using f0 by (intro fl_mono) simp_all
  then have lo: "1000 \<le> fl (1000 + fl (r * 9000))" unfolding fl_1000 .
  have "r * 9000 \<le> 9000 * (1 - 1 / 2 ^ 53)" using double_below_one[OF assms] by simp
  with p0 have "fl (r * 9000) \<le> fl (9000 * (1 - 1 / 2 ^ 53))" by (rule fl_mono)
  then have "1000 + fl (r * 9000) \<le> 10000 - 1 / 2 ^ 39" unfolding fl_top_product by simp
  then have "fl (1000 + fl (r * 9000)) \<le> fl (10000 - 1 / 2 ^ 39)"
    using f0 by (intro fl_mono) simp_all
  then have hi: "fl (1000 + fl (r * 9000)) < 10000" unfolding fl_top_sum
    by (simp add: field_simps)
  show "1000 \<le> randomCode r" unfolding randomCode_def using lo by linarith
  show "randomCode r \<le> 9999" unfolding randomCode_def using hi by linarith
qed

text \<open>The draws of the examples.\<close>

lemma isDouble_half: "isDouble (1 / 2)"
proof -
  have "fl (1 / 2) = 1 / 2"
    by (rule fl_exact[of _ "- 1" "2 ^ 52"]) (simp_all add: power_int_minus)
  then show ?thesis unfolding isDouble_def by simp
qed

lemma randomCode_half: "randomCode (1 / 2) = 5500"
proof -
  have a: "fl 4500 = 4500"
    by (rule fl_exact[of _ 12 "4500 * 2 ^ 40"]) (simp_all add: power_int_minus)
  have b: "fl 5500 = 5500"
    by (rule fl_exact[of _ 12 "5500 * 2 ^ 40"]) (simp_all add: power_int_minus)
  show ?thesis unfolding randomCode_def by (simp add: a b)
qed

lemma isDouble_top: "isDouble (16383 / 16384)"
proof -
  have "fl (16383 / 16384) = 16383 / 16384"
    by (rule fl_exact[of _ "- 1" "16383 * 2 ^ 39"]) (simp_all add: power_int_minus)
  then show ?thesis unfolding isDouble_def by simp
qed

lemma randomCode_top: "randomCode (16383 / 16384) = 9999"
proof -
  have a: "fl (36861750 / 4096) = 36861750 / 4096"
    by (rule fl_exact[of _ 13 "36861750 * 2 ^ 27"]) (simp_all add: power_int_minus)
  have b: "fl (40957750 / 4096) = 40957750 / 4096"
    by (rule fl_exact[of _ 13 "40957750 * 2 ^ 27"]) (simp_all add: power_int_minus)
  have c: "(16383 / 16384 * 9000 :: real) = 36861750 / 4096" by simp
  have d: "(1000 + 36861750 / 4096 :: real) = 40957750 / 4096" by simp
  have "\<lfloor>40957750 / 4096 :: real\<rfloor> = 9999" by linarith
  then show ?thesis unfolding randomCode_def c a d b by simp
qed

text \<open>
  Two draws at which the rounding decides. For the double nearest to \<open>1 / 3\<close> the exact
  product is below 3000 and is rounded to 3000. For the second draw the exact sum is below
  1025 and is rounded to 1025.
\<close>

lemma isDouble_third: "isDouble (6004799503160661 / 2 ^ 54)"
proof -
  have "fl (6004799503160661 / 2 ^ 54) = 6004799503160661 / 2 ^ 54"
    by (rule fl_exact[of _ "- 2" "6004799503160661"]) (simp_all add: power_int_minus)
  then show ?thesis unfolding isDouble_def by simp
qed

lemma randomCode_third: "randomCode (6004799503160661 / 2 ^ 54) = 4000"
proof -
  have "fl (6004799503160661 / 2 ^ 54 * 9000) = of_int (3000 * 2 ^ 41) * 2 powi (11 - 52)"
    by (rule fl_eval) (simp_all add: power_int_minus)
  then have a: "fl (6004799503160661 / 2 ^ 54 * 9000) = 3000"
    by (simp add: power_int_minus)
  have b: "fl 4000 = 4000"
    by (rule fl_exact[of _ 11 "4000 * 2 ^ 41"]) (simp_all add: power_int_minus)
  show ?thesis unfolding randomCode_def a by (simp add: b)
qed

lemma randomCode_rounds_up: "randomCode (12509998964918 / 2 ^ 52) = 1025"
proof -
  have c: "(12509998964918 / 2 ^ 52 * 9000 :: real) = 7036874417766375 / 2 ^ 48" by simp
  have a: "fl (7036874417766375 / 2 ^ 48) = 7036874417766375 / 2 ^ 48"
    by (rule fl_exact[of _ 4 "7036874417766375"]) (simp_all add: power_int_minus)
  have "fl (1000 + 7036874417766375 / 2 ^ 48) = of_int (1025 * 2 ^ 42) * 2 powi (10 - 52)"
    by (rule fl_eval) (simp_all add: power_int_minus)
  then have b: "fl (1000 + 7036874417766375 / 2 ^ 48) = 1025"
    by (simp add: power_int_minus)
  show ?thesis unfolding randomCode_def c a b by simp
qed

section \<open>The rate limiter\<close>

lemma check_other:
  "i \<noteq> ident \<Longrightarrow> check t i rl = (r, rl') \<Longrightarrow>
     fmlookup (clients rl') ident = fmlookup (clients rl) ident \<and>
     maxRequests rl' = maxRequests rl \<and> windowMs rl' = windowMs rl"
  by (auto simp: check_def Let_def split: if_splits)

lemma check_in_window:
  assumes "fmlookup (clients rl) ident = Some \<lparr>count = int k, windowStart = t0\<rparr>"
      and "t - t0 < windowMs rl" and "check t ident rl = (r, rl')"
  shows "allowed r = (int k < maxRequests rl) \<and>
         fmlookup (clients rl') ident =
           Some \<lparr>count = (if int k < maxRequests rl then int (Suc k) else int k), windowStart = t0\<rparr> \<and>
         maxRequests rl' = maxRequests rl \<and> windowMs rl' = windowMs rl"
  using assms by (auto simp: check_def current_client_def Let_def split: if_splits)

lemma check_fresh:
  assumes "fmlookup (clients rl) ident = None \<or>
           (\<exists>c. fmlookup (clients rl) ident = Some c \<and> t - windowStart c \<ge> windowMs rl)"
      and "0 < maxRequests rl" and "check t ident rl = (r, rl')"
  shows "allowed r \<and> remaining r = maxRequests rl - 1 \<and> resetIn r = windowMs rl \<and>
         fmlookup (clients rl') ident = Some \<lparr>count = 1, windowStart = t\<rparr> \<and>
         maxRequests rl' = maxRequests rl \<and> windowMs rl' = windowMs rl"
  using assms by (auto simp: check_def current_client_def Let_def split: if_splits)

text \<open>
  Inside a window that started at \<open>t0\<close> with \<open>k\<close> requests counted, the calls of one
  identifier are allowed until the count reaches the maximum \<open>m\<close>, whatever other
  identifiers do in between.
\<close>

lemma checks_in_window:
  assumes "maxRequests rl = int m" "windowMs rl = w"
      and "fmlookup (clients rl) ident = Some \<lparr>count = int k, windowStart = t0\<rparr>"
      and "k \<le> m"
      and "\<forall>p \<in> set cs. fst p = ident \<longrightarrow> snd p - t0 < w"
      and "checks cs rl = (res, rl')"
  shows "allowed_of ident res =
           replicate (min (calls_of ident cs) (m - k)) True @
           replicate (calls_of ident cs - (m - k)) False \<and>
         fmlookup (clients rl') ident =
           Some \<lparr>count = int (min (k + calls_of ident cs) m), windowStart = t0\<rparr> \<and>
         maxRequests rl' = int m \<and> windowMs rl' = w"
  using assms
proof (induction cs arbitrary: rl k res rl')
  case Nil
  then show ?case by (simp add: allowed_of_def calls_of_def)
next
  case (Cons a cs)
  obtain i t where a: "a = (i, t)" by (cases a)
  obtain r rl1 where c: "check t i rl = (r, rl1)" by (cases "check t i rl")
  obtain rs rl2 where cs: "checks cs rl1 = (rs, rl2)" by (cases "checks cs rl1")
  from Cons.prems(6) a c cs have res: "res = (i, r) # rs" and rl': "rl2 = rl'" by auto
  note cs = cs[unfolded rl']
  from Cons.prems(5) have rest: "\<forall>p \<in> set cs. fst p = ident \<longrightarrow> snd p - t0 < w" by simp
  show ?case
  proof (cases "i = ident")
    case False
    from check_other[OF False c] Cons.prems
    have 1: "maxRequests rl1 = int m" "windowMs rl1 = w"
      "fmlookup (clients rl1) ident = Some \<lparr>count = int k, windowStart = t0\<rparr>" by auto
    from Cons.IH[OF 1 Cons.prems(4) rest cs] False show ?thesis
      by (simp add: res a allowed_of_def calls_of_def)
  next
    case True
    from Cons.prems(5) a True have "t - t0 < windowMs rl" using Cons.prems(2) by simp
    from check_in_window[OF Cons.prems(3) this c[unfolded True]] Cons.prems(1,2)
    have al: "allowed r = (k < m)"
      and 1: "maxRequests rl1 = int m" "windowMs rl1 = w"
      and e: "fmlookup (clients rl1) ident =
                Some \<lparr>count = (if k < m then int (Suc k) else int k), windowStart = t0\<rparr>"
      by auto
    show ?thesis
    proof (cases "k < m")
      case lt: True
      with e have e': "fmlookup (clients rl1) ident = Some \<lparr>count = int (Suc k), windowStart = t0\<rparr>"
        by simp
      from lt have k': "Suc k \<le> m" by simp
      have mk: "m - k = Suc (m - Suc k)" using lt by simp
      from Cons.IH[OF 1 e' k' rest cs] al lt True show ?thesis
        by (simp add: res a allowed_of_def calls_of_def mk)
    next
      case ge: False
      with e have e': "fmlookup (clients rl1) ident = Some \<lparr>count = int k, windowStart = t0\<rparr>"
        by simp
      from ge Cons.prems(4) have km: "m - k = 0" by simp
      from Cons.IH[OF 1 e' Cons.prems(4) rest cs] al ge True show ?thesis
        by (simp add: res a allowed_of_def calls_of_def km)
    qed
  qed
qed

text \<open>
  Claim C3. A limiter with \<open>maxRequests = 10\<close> and \<open>windowMs = 10000\<close>; the identifier has no
  entry or an expired one when it calls \<open>check\<close> at \<open>t0\<close>, which starts a window. Of that
  call and the later calls of the same identifier inside the window (clock readings \<open>t\<close> with
  \<open>t - t0 < 10000\<close>), interleaved with calls of other identifiers, the first ten are
  allowed and every further one is denied. A call at \<open>t'\<close> with \<open>t' - t0 \<ge> 10000\<close> is allowed
  again: it replaces the entry by a count reset to 0 and counts itself, leaving 9.
\<close>

theorem rate_limiter_window:
  assumes mx: "maxRequests rl = 10" and wn: "windowMs rl = 10000"
      and start: "fmlookup (clients rl) ident = None \<or>
           (\<exists>c. fmlookup (clients rl) ident = Some c \<and> t0 - windowStart c \<ge> 10000)"
      and within: "\<forall>p \<in> set cs. fst p = ident \<longrightarrow> snd p - t0 < 10000"
      and run: "checks ((ident, t0) # cs) rl = (res, rl')"
  shows "allowed_of ident res =
           replicate (min (Suc (calls_of ident cs)) 10) True @
           replicate (Suc (calls_of ident cs) - 10) False \<and>
         (\<forall>t'. t' - t0 \<ge> 10000 \<longrightarrow>
            allowed (fst (check t' ident rl')) \<and> remaining (fst (check t' ident rl')) = 9 \<and>
            fmlookup (clients (snd (check t' ident rl'))) ident =
              Some \<lparr>count = 1, windowStart = t'\<rparr>)"
proof -
  obtain r rl1 where c: "check t0 ident rl = (r, rl1)" by (cases "check t0 ident rl")
  obtain rs rl2 where cs: "checks cs rl1 = (rs, rl2)" by (cases "checks cs rl1")
  from run c cs have res: "res = (ident, r) # rs" and rl': "rl' = rl2" by auto
  from start wn have start': "fmlookup (clients rl) ident = None \<or>
           (\<exists>c. fmlookup (clients rl) ident = Some c \<and> t0 - windowStart c \<ge> windowMs rl)"
    by simp
  from mx have pos: "0 < maxRequests rl" by simp
  from check_fresh[OF start' pos c] mx wn
  have al: "allowed r" and 1: "maxRequests rl1 = int 10" "windowMs rl1 = 10000"
    and e: "fmlookup (clients rl1) ident = Some \<lparr>count = int 1, windowStart = t0\<rparr>"
    by auto
  have k: "(1::nat) \<le> 10" by simp
  from checks_in_window[OF 1 e k within cs]
  have flags: "allowed_of ident rs =
           replicate (min (calls_of ident cs) 9) True @ replicate (calls_of ident cs - 9) False"
    and fin: "fmlookup (clients rl2) ident =
           Some \<lparr>count = int (min (1 + calls_of ident cs) 10), windowStart = t0\<rparr>"
    and 2: "maxRequests rl2 = 10" "windowMs rl2 = 10000"
    by auto
  have A: "allowed_of ident res =
           replicate (min (Suc (calls_of ident cs)) 10) True @
           replicate (Suc (calls_of ident cs) - 10) False"
    using flags al by (simp add: res allowed_of_def)
  have B: "allowed (fst (check t' ident rl')) \<and> remaining (fst (check t' ident rl')) = 9 \<and>
            fmlookup (clients (snd (check t' ident rl'))) ident =
              Some \<lparr>count = 1, windowStart = t'\<rparr>" if "t' - t0 \<ge> 10000" for t'
  proof -
    obtain r' rl3 where c': "check t' ident rl' = (r', rl3)" by (cases "check t' ident rl'")
    have exp: "fmlookup (clients rl') ident = None \<or>
           (\<exists>c. fmlookup (clients rl') ident = Some c \<and> t' - windowStart c \<ge> windowMs rl')"
      using fin 2 that by (simp add: rl')
    have pos': "0 < maxRequests rl'" using 2 by (simp add: rl')
    from check_fresh[OF exp pos' c'] 2 show ?thesis by (simp add: c' rl'[symmetric])
  qed
  from A B show ?thesis by blast
qed

text \<open>
  Twelve calls of \<open>a\<close> in one window, two calls of \<open>b\<close> in between: ten allowed, two denied,
  and the call at 10000 allowed again.
\<close>

theorem rate_limiter_window_witness:
  "allowed_of (lit ''a'') (fst (checks ((lit ''a'', 0) # burst) (newRateLimiter 10 10000))) =
     [True, True, True, True, True, True, True, True, True, True, False, False] \<and>
   allowed (fst (check 10000 (lit ''a'')
     (snd (checks ((lit ''a'', 0) # burst) (newRateLimiter 10 10000)))))"
proof -
  have 1: "maxRequests (newRateLimiter 10 10000) = 10" "windowMs (newRateLimiter 10 10000) = 10000"
    by (simp_all add: newRateLimiter_def)
  have 2: "fmlookup (clients (newRateLimiter 10 10000)) (lit ''a'') = None \<or>
      (\<exists>c. fmlookup (clients (newRateLimiter 10 10000)) (lit ''a'') = Some c \<and>
           0 - windowStart c \<ge> 10000)"
    by (simp add: newRateLimiter_def)
  have 3: "\<forall>p \<in> set burst. fst p = lit ''a'' \<longrightarrow> snd p - 0 < 10000"
    by (simp add: burst_def)
  have 4: "checks ((lit ''a'', 0) # burst) (newRateLimiter 10 10000) =
     (fst (checks ((lit ''a'', 0) # burst) (newRateLimiter 10 10000)),
      snd (checks ((lit ''a'', 0) # burst) (newRateLimiter 10 10000)))"
    by (rule prod.collapse[symmetric])
  have 5: "calls_of (lit ''a'') burst = 11"
    by (simp add: calls_of_def burst_def lit_def)
  from rate_limiter_window[OF 1 2 3 4] show ?thesis
    by (simp add: 5 numeral_eq_Suc)
qed

section \<open>The reverse index\<close>

lemma consistent_new: "index_consistent newRoomManager"
  by (simp add: index_consistent_def indexed_def is_member_def newRoomManager_def)

lemma consistent_timers [simp]:
  "index_consistent (s\<lparr>cleanupTimers := T\<rparr>) = index_consistent s"
  by (simp add: index_consistent_def indexed_def is_member_def)

lemma consistent_cancelRoomCleanup:
  "index_consistent s \<Longrightarrow> index_consistent (cancelRoomCleanup rid s)"
  by (simp add: cancelRoomCleanup_def)

lemma consistentD:
  "index_consistent s \<Longrightarrow> fmlookup (userSockets s) sid = Some e \<Longrightarrow>
     \<exists>r. fmlookup (rooms s) (roomId e) = Some r \<and> sid |\<in>| fmdom (users r)"
  unfolding index_consistent_def indexed_def is_member_def by blast

lemma consistentD2:
  "index_consistent s \<Longrightarrow> fmlookup (rooms s) rid = Some r \<Longrightarrow> sid |\<in>| fmdom (users r) \<Longrightarrow>
     \<exists>e. fmlookup (userSockets s) sid = Some e \<and> roomId e = rid"
  unfolding index_consistent_def indexed_def is_member_def by blast

lemma consistent_destroyRoom:
  assumes "index_consistent s" shows "index_consistent (destroyRoom rid s)"
proof (cases "fmlookup (rooms s) rid")
  case None
  with assms show ?thesis by (simp add: destroyRoom_def)
next
  case (Some r)
  have "indexed (destroyRoom rid s) rid' sid = is_member (destroyRoom rid s) rid' sid" for rid' sid
    using consistentD[OF assms, of sid] consistentD2[OF assms, of rid' _ sid] consistentD2[OF assms Some, of sid] Some
    by (auto simp: destroyRoom_def cancelRoomCleanup_def indexed_def is_member_def)
  then show ?thesis by (simp add: index_consistent_def)
qed

lemma consistent_scheduleRoomCleanup:
  "index_consistent s \<Longrightarrow> index_consistent (scheduleRoomCleanup cfg rid s)"
  by (simp add: scheduleRoomCleanup_def Let_def consistent_destroyRoom consistent_cancelRoomCleanup)

lemma consistent_cleanupTimerFired:
  "index_consistent s \<Longrightarrow> index_consistent (cleanupTimerFired rid s)"
  by (simp add: cleanupTimerFired_def Let_def consistent_destroyRoom split: option.splits)

lemma consistent_leave_step:
  assumes "index_consistent s" "fmlookup (rooms s) rid = Some r" "fmlookup (users r) sid = Some u"
  shows "index_consistent (s\<lparr>rooms := fmupd rid (r\<lparr>users := fmdrop sid (users r)\<rparr>) (rooms s),
                            userSockets := fmdrop sid (userSockets s)\<rparr>)"
proof -
  have "sid |\<in>| fmdom (users r)" using assms(3) by (simp add: fmdomI)
  from consistentD2[OF assms(1,2) this] obtain e where
    e: "fmlookup (userSockets s) sid = Some e" "roomId e = rid" by blast
  show ?thesis
    unfolding index_consistent_def
  proof (intro allI)
    fix rid' sid'
    show "indexed (s\<lparr>rooms := fmupd rid (r\<lparr>users := fmdrop sid (users r)\<rparr>) (rooms s),
                            userSockets := fmdrop sid (userSockets s)\<rparr>) rid' sid' =
          is_member (s\<lparr>rooms := fmupd rid (r\<lparr>users := fmdrop sid (users r)\<rparr>) (rooms s),
                            userSockets := fmdrop sid (userSockets s)\<rparr>) rid' sid'"
      using consistentD[OF assms(1), of sid'] consistentD2[OF assms(1), of rid' _ sid'] assms(2) e
      by (auto simp: indexed_def is_member_def)
  qed
qed

lemma consistent_leaveRoom:
  "index_consistent s \<Longrightarrow> index_consistent (snd (leaveRoom cfg rid sid s))"
  by (auto simp: leaveRoom_def Let_def consistent_leave_step consistent_scheduleRoomCleanup
           split: option.splits)

lemma consistent_leaveRoom_pair:
  "index_consistent s \<Longrightarrow> leaveRoom cfg rid sid s = (x, s') \<Longrightarrow> index_consistent s'"
  using consistent_leaveRoom[of s cfg rid sid] by simp

lemma consistent_handleDisconnect:
  "index_consistent s \<Longrightarrow> index_consistent (snd (handleDisconnect cfg sid s))"
  by (auto simp: handleDisconnect_def split: option.splits prod.splits
           dest: consistent_leaveRoom_pair)

lemma leaveRoom_other_room:
  "rid' \<noteq> rid \<Longrightarrow> fmlookup (rooms (snd (leaveRoom cfg rid' sid s))) rid = fmlookup (rooms s) rid"
  by (auto simp: leaveRoom_def Let_def scheduleRoomCleanup_def destroyRoom_def
                 cancelRoomCleanup_def split: option.splits)

lemma consistent_join_step:
  assumes "index_consistent s" "fmlookup (rooms s) rid = Some r" "fmlookup (users r) sid = None"
      and "fmlookup (userSockets s) sid = None" "roomId e = rid"
  shows "index_consistent (s\<lparr>rooms := fmupd rid (r\<lparr>users := fmupd sid u (users r)\<rparr>) (rooms s),
                            userSockets := fmupd sid e (userSockets s)\<rparr>)"
  unfolding index_consistent_def
proof (intro allI)
  fix rid' sid'
  show "indexed (s\<lparr>rooms := fmupd rid (r\<lparr>users := fmupd sid u (users r)\<rparr>) (rooms s),
                            userSockets := fmupd sid e (userSockets s)\<rparr>) rid' sid' =
        is_member (s\<lparr>rooms := fmupd rid (r\<lparr>users := fmupd sid u (users r)\<rparr>) (rooms s),
                            userSockets := fmupd sid e (userSockets s)\<rparr>) rid' sid'"
    using consistentD[OF assms(1), of sid'] consistentD2[OF assms(1), of rid' _ sid'] assms(2-5)
    by (auto simp: indexed_def is_member_def)
qed

lemma leaveRoom_removes_entry:
  "index_consistent s \<Longrightarrow> fmlookup (userSockets s) sid = Some e \<Longrightarrow>
     fmlookup (userSockets (snd (leaveRoom cfg (roomId e) sid s))) sid = None"
  by (auto simp: leaveRoom_def Let_def scheduleRoomCleanup_def destroyRoom_def
                 cancelRoomCleanup_def split: option.splits dest!: consistentD)

lemma consistent_joinRoom:
  assumes c: "index_consistent s" and j: "joinRoom cfg rid sid preferredName rn s = Inr (u, s')"
  shows "index_consistent s'"
proof -
  from j obtain r where r: "fmlookup (rooms s) rid = Some r"
    by (auto simp: joinRoom_def split: option.splits)
  let ?s1 = "cancelRoomCleanup rid s"
  define s2 where "s2 = (case fmlookup (userSockets ?s1) sid of
                        None \<Rightarrow> ?s1
                      | Some existingUserInfo \<Rightarrow>
                          if roomId existingUserInfo \<noteq> rid
                          then snd (leaveRoom cfg (roomId existingUserInfo) sid ?s1)
                          else ?s1)"
  have c1: "index_consistent ?s1" using c by (simp add: consistent_cancelRoomCleanup)
  have c2: "index_consistent s2"
    using c1 by (auto simp: s2_def consistent_leaveRoom split: option.splits)
  have r1: "fmlookup (rooms ?s1) rid = Some r" using r by (simp add: cancelRoomCleanup_def)
  have r2: "fmlookup (rooms s2) rid = Some r"
    using r1 by (auto simp: s2_def leaveRoom_other_room split: option.splits)
  show ?thesis
  proof (cases "fmlookup (users r) sid")
    case (Some existing)
    with j r have "s' = s2"
      by (auto simp: joinRoom_def Let_def s2_def split: if_splits)
    with c2 show ?thesis by simp
  next
    case None
    have no: "fmlookup (userSockets s2) sid = None"
    proof (cases "fmlookup (userSockets ?s1) sid")
      case None
      then show ?thesis by (simp add: s2_def)
    next
      case (Some e)
      show ?thesis
      proof (cases "roomId e = rid")
        case True
        from consistentD[OF c1 Some] True r1 None show ?thesis by (auto simp: fmlookup_dom_iff)
      next
        case False
        with Some leaveRoom_removes_entry[OF c1 Some] show ?thesis by (simp add: s2_def)
      qed
    qed
    from j r None obtain un where
      "s' = s2\<lparr>rooms := fmupd rid (r\<lparr>users := fmupd sid u (users r)\<rparr>) (rooms s2),
              userSockets := fmupd sid \<lparr>userId = lit ''user_'' @ substring0 8 sid, userName = un, roomId = rid\<rparr>
                                  (userSockets s2)\<rparr>"
      by (auto simp: joinRoom_def Let_def s2_def split: if_splits)
    then show ?thesis using consistent_join_step[OF c2 r2 None no] by simp
  qed
qed

lemma consistent_updateUserName:
  assumes "index_consistent s" shows "index_consistent (snd (updateUserName sid newName s))"
proof -
  have "indexed (snd (updateUserName sid newName s)) rid' sid' = indexed s rid' sid'" for rid' sid'
    by (auto simp: updateUserName_def indexed_def split: option.splits)
  moreover
  have "is_member (snd (updateUserName sid newName s)) rid' sid' = is_member s rid' sid'" for rid' sid'
    by (auto simp: updateUserName_def is_member_def fmlookup_dom_iff split: option.splits)
  ultimately show ?thesis using assms by (simp add: index_consistent_def)
qed

lemma consistent_addMessage:
  assumes "index_consistent s" "addMessage cfg rid msg s = Some s'" shows "index_consistent s'"
proof -
  have "indexed s' rid' sid' = indexed s rid' sid'" for rid' sid'
    using assms(2) by (auto simp: addMessage_def indexed_def split: option.splits)
  moreover
  have "is_member s' rid' sid' = is_member s rid' sid'" for rid' sid'
    using assms(2) by (auto simp: addMessage_def is_member_def split: option.splits if_splits)
  ultimately show ?thesis using assms(1) by (simp add: index_consistent_def)
qed

lemma generateRoomCode_loop_fresh:
  "generateRoomCode_loop rs rnd k = Inr code \<Longrightarrow> code |\<notin>| fmdom rs"
proof (induction rs rnd k rule: generateRoomCode_loop.induct)
  case (1 rs rnd attempts)
  then show ?case
    by (subst (asm) (2) generateRoomCode_loop.simps) (auto split: if_splits)

qed

lemma consistent_createRoom:
  assumes "index_consistent s" "createRoom cfg rnd now s = Inr (r, s')" shows "index_consistent s'"
proof -
  from assms(2) obtain code where code: "generateRoomCode_loop (rooms s) rnd 0 = Inr code"
    and s': "s' = s\<lparr>rooms := fmupd code \<lparr>room_id = code, users = fmempty, createdAt = now, messages = []\<rparr> (rooms s)\<rparr>"
    by (auto simp: createRoom_def generateRoomCode_def Let_def split: if_splits sum.splits)
  from generateRoomCode_loop_fresh[OF code] have fresh: "fmlookup (rooms s) code = None" by auto
  have "indexed s' rid' sid' = is_member s' rid' sid'" for rid' sid'
    using consistentD[OF assms(1), of sid'] consistentD2[OF assms(1), of rid' _ sid'] fresh
    by (auto simp: s' indexed_def is_member_def)
  then show ?thesis by (simp add: index_consistent_def)
qed

lemma reachable_consistent: "reachable cfg s \<Longrightarrow> index_consistent s"
proof (induction rule: reachable.induct)
  case r_new
  show ?case by (rule consistent_new)
next
  case (r_createRoom s rnd now r s')
  then show ?case by (blast intro: consistent_createRoom)
next
  case (r_joinRoom s rid sid preferredName rn u s')
  then show ?case by (blast intro: consistent_joinRoom)
next
  case (r_addMessage s rid msg s')
  then show ?case by (blast intro: consistent_addMessage)
qed (simp_all add: consistent_leaveRoom consistent_handleDisconnect consistent_destroyRoom
       consistent_updateUserName consistent_scheduleRoomCleanup consistent_cancelRoomCleanup
       consistent_cleanupTimerFired)

lemma toString_5500: "toString 5500 = lit ''5500''"
  by (simp add: toString.simps digit_def lit_def)

lemma ex_createRoom:
  "createRoom default_config (always (1/2)) 0 newRoomManager = Inr (ex_room, ex_created)"
  by (simp add: createRoom_def generateRoomCode_def generateRoomCode_loop.simps maxAttempts_def
        always_def randomCode_half toString_5500 newRoomManager_def default_config_def ex_room_def
        ex_created_def fcard_fempty Let_def)

lemma ex_joinRoom:
  "joinRoom default_config (lit ''5500'') sockA (JStr (lit ''Ann'')) 0 ex_created =
     Inr (ann, ex_joined)"
  by (simp add: joinRoom_def ex_created_def ex_joined_def ex_room_def ann_def default_config_def
        cancelRoomCleanup_def sanitizeUserName_def substring0_def trim_def isWhiteSpace_def
        USERNAME_MAX_LENGTH_def USERNAME_MIN_LENGTH_def isNameControl_def sockA_def lit_def
        fcard_fempty Let_def)

text \<open>
  Claim C1. In every state that the manager reaches through its operations (\<open>createRoom\<close>,
  \<open>joinRoom\<close>, \<open>leaveRoom\<close>, \<open>handleDisconnect\<close>, \<open>destroyRoom\<close>, \<open>updateUserName\<close>,
  \<open>addMessage\<close>, the cleanup scheduling and the firing of a cleanup timer), a socket has an
  entry in \<open>userSockets\<close> if and only if exactly one live room has it as a key of its \<open>users\<close>
  map; the entry's \<open>roomId\<close> names that room; and the keys of each room's \<open>users\<close> map are
  exactly the sockets whose entry names the room.
\<close>

theorem reverse_index_consistent:
  assumes "reachable cfg s"
  shows "(\<forall>sid. (fmlookup (userSockets s) sid \<noteq> None) = (\<exists>!rid. is_member s rid sid)) \<and>
         (\<forall>sid e. fmlookup (userSockets s) sid = Some e \<longrightarrow> is_member s (roomId e) sid) \<and>
         (\<forall>rid r. fmlookup (rooms s) rid = Some r \<longrightarrow>
            fset (fmdom (users r)) =
              {sid. \<exists>e. fmlookup (userSockets s) sid = Some e \<and> roomId e = rid})"
proof -
  from assms have c: "index_consistent s" by (rule reachable_consistent)
  then have eq: "\<And>rid sid. indexed s rid sid = is_member s rid sid"
    by (simp add: index_consistent_def)
  have A: "(fmlookup (userSockets s) sid \<noteq> None) = (\<exists>!rid. is_member s rid sid)" for sid
  proof
    assume "fmlookup (userSockets s) sid \<noteq> None"
    then obtain e where e: "fmlookup (userSockets s) sid = Some e" by auto
    then have "indexed s (roomId e) sid" by (simp add: indexed_def)
    then have m: "is_member s (roomId e) sid" by (simp add: eq)
    have "rid = roomId e" if "is_member s rid sid" for rid
      using that e eq[of rid sid, symmetric] by (simp add: indexed_def)
    with m show "\<exists>!rid. is_member s rid sid" by blast
  next
    assume "\<exists>!rid. is_member s rid sid"
    then obtain rid where "is_member s rid sid" by blast
    then have "indexed s rid sid" by (simp add: eq)
    then show "fmlookup (userSockets s) sid \<noteq> None" by (auto simp: indexed_def)
  qed
  have B: "is_member s (roomId e) sid" if "fmlookup (userSockets s) sid = Some e" for sid e
    using that eq[of "roomId e" sid] by (simp add: indexed_def)
  have C: "fset (fmdom (users r)) =
             {sid. \<exists>e. fmlookup (userSockets s) sid = Some e \<and> roomId e = rid}"
    if "fmlookup (rooms s) rid = Some r" for rid r
    using that eq[of rid] by (auto simp: indexed_def is_member_def)
  from A B C show ?thesis by blast
qed

text \<open>A room created and joined by one socket.\<close>

theorem reverse_index_consistent_witness:
  "reachable default_config ex_joined \<and>
   fmlookup (userSockets ex_joined) sockA \<noteq> None \<and>
   (\<exists>!rid. is_member ex_joined rid sockA) \<and>
   is_member ex_joined (lit ''5500'') sockA"
proof -
  have r: "reachable default_config ex_joined"
    by (rule r_joinRoom[OF r_createRoom[OF r_new ex_createRoom] ex_joinRoom])
  have e: "fmlookup (userSockets ex_joined) sockA =
             Some \<lparr>userId = lit ''user_socketA1'', userName = lit ''Ann'', roomId = lit ''5500''\<rparr>"
    by (simp add: ex_joined_def)
  note T = reverse_index_consistent[OF r]
  have 1: "(fmlookup (userSockets ex_joined) sockA \<noteq> None) = (\<exists>!rid. is_member ex_joined rid sockA)"
    using T[THEN conjunct1, THEN spec, of sockA] .
  have 2: "is_member ex_joined (lit ''5500'') sockA"
    using T[THEN conjunct2, THEN conjunct1, THEN spec, THEN spec, THEN mp, OF e] by simp
  from e have 3: "fmlookup (userSockets ex_joined) sockA \<noteq> None" by simp
  from r 1 2 3 show ?thesis by simp
qed

section \<open>Joining a room\<close>

lemma joinRoom_not_found:
  "fmlookup (rooms s) rid = None \<Longrightarrow>
     joinRoom cfg rid sid preferredName rn s = Inl (Error (lit ''Room not found''))"
  by (simp add: joinRoom_def)

lemma joinRoom_full:
  "fmlookup (rooms s) rid = Some r \<Longrightarrow> ROOM_MAX_USERS cfg > 0 \<Longrightarrow>
   int (fcard (fmdom (users r))) \<ge> ROOM_MAX_USERS cfg \<Longrightarrow>
     joinRoom cfg rid sid preferredName rn s = Inl (Error (lit ''Room is full''))"
  by (simp add: joinRoom_def)

lemma joinRoomHandler_not_found:
  assumes "allowed (fst (check now sid (eventRateLimiter sv)))" "isRoomCode rid"
      and "data = JStr rid \<or> (\<exists>fs. data = JObj fs \<and> field ''roomId'' fs = JStr rid)"
      and "fmlookup (rooms (manager sv)) rid = None"
  shows "reply (joinRoomHandler cfg sid now rn sfx date data sv) = failure (lit ''Room not found'') \<and>
         effects (joinRoomHandler cfg sid now rn sfx date data sv) = [] \<and>
         manager (state (joinRoomHandler cfg sid now rn sfx date data sv)) = manager sv"
  using assms
  by (auto simp: joinRoomHandler_def joinRoomBody_def Let_def roomExists_def fmlookup_dom_iff
           split: prod.splits)

lemma joinRoomHandler_full:
  assumes "allowed (fst (check now sid (eventRateLimiter sv)))" "isRoomCode rid"
      and "data = JStr rid \<or> (\<exists>fs. data = JObj fs \<and> field ''roomId'' fs = JStr rid)"
      and "fmlookup (rooms (manager sv)) rid = Some r" "ROOM_MAX_USERS cfg > 0"
      and "int (fcard (fmdom (users r))) \<ge> ROOM_MAX_USERS cfg"
  shows "reply (joinRoomHandler cfg sid now rn sfx date data sv) = failure (lit ''Room is full'') \<and>
         effects (joinRoomHandler cfg sid now rn sfx date data sv) = [] \<and>
         manager (state (joinRoomHandler cfg sid now rn sfx date data sv)) = manager sv"
  using assms
  by (auto simp: joinRoomHandler_def joinRoomBody_def Let_def roomExists_def fmlookup_dom_iff
                 joinRoom_def joinRoomCatch_def
           split: prod.splits)

text \<open>
  Claim C7. \<open>joinRoom\<close> on a code that names no live room throws \<open>Room not found\<close>, and on
  a live room whose member count has reached \<open>ROOM.MAX_USERS > 0\<close> it throws \<open>Room is full\<close>.
  Both throws come before any write. The \<open>join-room\<close> handler, when the event budget
  allows the request and the code is four digits, answers with the same two texts, emits
  nothing and leaves the room manager as it was.
\<close>

theorem joinRoom_failures:
  "(fmlookup (rooms s) rid = None \<longrightarrow>
      joinRoom cfg rid sid preferredName rn s = Inl (Error (lit ''Room not found''))) \<and>
   (\<forall>r. fmlookup (rooms s) rid = Some r \<and> ROOM_MAX_USERS cfg > 0 \<and>
        int (fcard (fmdom (users r))) \<ge> ROOM_MAX_USERS cfg \<longrightarrow>
      joinRoom cfg rid sid preferredName rn s = Inl (Error (lit ''Room is full''))) \<and>
   (manager sv = s \<and> allowed (fst (check now sid (eventRateLimiter sv))) \<and> isRoomCode rid \<and>
    (data = JStr rid \<or> (\<exists>fs. data = JObj fs \<and> field ''roomId'' fs = JStr rid)) \<longrightarrow>
      (fmlookup (rooms s) rid = None \<longrightarrow>
         reply (joinRoomHandler cfg sid now rn sfx date data sv) = failure (lit ''Room not found'') \<and>
         effects (joinRoomHandler cfg sid now rn sfx date data sv) = [] \<and>
         manager (state (joinRoomHandler cfg sid now rn sfx date data sv)) = s) \<and>
      (\<forall>r. fmlookup (rooms s) rid = Some r \<and> ROOM_MAX_USERS cfg > 0 \<and>
           int (fcard (fmdom (users r))) \<ge> ROOM_MAX_USERS cfg \<longrightarrow>
         reply (joinRoomHandler cfg sid now rn sfx date data sv) = failure (lit ''Room is full'') \<and>
         effects (joinRoomHandler cfg sid now rn sfx date data sv) = [] \<and>
         manager (state (joinRoomHandler cfg sid now rn sfx date data sv)) = s))"
  using joinRoom_not_found[of s rid cfg sid preferredName rn]
        joinRoom_full[of s rid _ cfg sid preferredName rn]
        joinRoomHandler_not_found[of now sid sv rid data cfg rn sfx date]
        joinRoomHandler_full[of now sid sv rid data _ cfg rn sfx date]
  by blast

lemma ex_joined_room:
  "fmlookup (rooms ex_joined) (lit ''5500'') = Some (ex_room\<lparr>users := fmupd sockA ann fmempty\<rparr>)"
  by (simp add: ex_joined_def)

lemma ex_joined_no_room: "fmlookup (rooms ex_joined) (lit ''1234'') = None"
  by (simp add: ex_joined_def lit_def)

lemma ex_event_allowed: "allowed (fst (check 0 sockB (eventRateLimiter ex_server)))"
  by (simp add: ex_server_def newRateLimiter_def check_def current_client_def Let_def)

lemma isRoomCode_5500: "isRoomCode (lit ''5500'')"
  by (simp add: isRoomCode_def isDigit_def lit_def)

lemma isRoomCode_1234: "isRoomCode (lit ''1234'')"
  by (simp add: isRoomCode_def isDigit_def lit_def)

text \<open>A missing room and a room of one member under a ceiling of one.\<close>

theorem joinRoom_failures_witness:
  "fmlookup (rooms ex_joined) (lit ''1234'') = None \<and>
   joinRoom full_config (lit ''1234'') sockB JOther 0 ex_joined = Inl (Error (lit ''Room not found'')) \<and>
   reply (joinRoomHandler full_config sockB 0 0 [] 0 (JStr (lit ''1234'')) ex_server) =
     failure (lit ''Room not found'') \<and>
   manager (state (joinRoomHandler full_config sockB 0 0 [] 0 (JStr (lit ''1234'')) ex_server)) =
     ex_joined \<and>
   joinRoom full_config (lit ''5500'') sockB JOther 0 ex_joined = Inl (Error (lit ''Room is full'')) \<and>
   reply (joinRoomHandler full_config sockB 0 0 [] 0 (JStr (lit ''5500'')) ex_server) =
     failure (lit ''Room is full'') \<and>
   manager (state (joinRoomHandler full_config sockB 0 0 [] 0 (JStr (lit ''5500'')) ex_server)) =
     ex_joined"
proof -
  have m: "manager ex_server = ex_joined" by (simp add: ex_server_def)
  have cap: "ROOM_MAX_USERS full_config > 0"
    "int (fcard (fmdom (users (ex_room\<lparr>users := fmupd sockA ann fmempty\<rparr>)))) \<ge> ROOM_MAX_USERS full_config"
    by (simp_all add: full_config_def default_config_def fcard_finsert_if)
  note A = joinRoom_failures[of ex_joined "lit ''1234''" full_config sockB JOther 0 ex_server 0
             "JStr (lit ''1234'')" "[]" 0]
  note B = joinRoom_failures[of ex_joined "lit ''5500''" full_config sockB JOther 0 ex_server 0
             "JStr (lit ''5500'')" "[]" 0]
  from A m ex_joined_no_room ex_event_allowed isRoomCode_1234
  have 1: "joinRoom full_config (lit ''1234'') sockB JOther 0 ex_joined = Inl (Error (lit ''Room not found''))"
    and 2: "reply (joinRoomHandler full_config sockB 0 0 [] 0 (JStr (lit ''1234'')) ex_server) =
              failure (lit ''Room not found'')"
    and 3: "manager (state (joinRoomHandler full_config sockB 0 0 [] 0 (JStr (lit ''1234'')) ex_server)) =
              ex_joined"
    by blast+
  from B m ex_joined_room cap ex_event_allowed isRoomCode_5500
  have 4: "joinRoom full_config (lit ''5500'') sockB JOther 0 ex_joined = Inl (Error (lit ''Room is full''))"
    and 5: "reply (joinRoomHandler full_config sockB 0 0 [] 0 (JStr (lit ''5500'')) ex_server) =
              failure (lit ''Room is full'')"
    and 6: "manager (state (joinRoomHandler full_config sockB 0 0 [] 0 (JStr (lit ''5500'')) ex_server)) =
              ex_joined"
    by blast+
  from ex_joined_no_room 1 2 3 4 5 6 show ?thesis by blast
qed

text \<open>
  A member that calls \<open>joinRoom\<close> for its own room again, below the ceiling, gets its user
  object back; only a pending cleanup timer of the room is cancelled.
\<close>

lemma joinRoom_rejoin_below_ceiling:
  assumes "index_consistent s" "fmlookup (rooms s) rid = Some r" "fmlookup (users r) sid = Some u"
      and "\<not> (ROOM_MAX_USERS cfg > 0 \<and> int (fcard (fmdom (users r))) \<ge> ROOM_MAX_USERS cfg)"
  shows "joinRoom cfg rid sid preferredName rn s = Inr (u, cancelRoomCleanup rid s)"
proof -
  have "sid |\<in>| fmdom (users r)" using assms(3) by (simp add: fmdomI)
  from consistentD2[OF assms(1,2) this] obtain e where
    "fmlookup (userSockets s) sid = Some e" "roomId e = rid" by blast
  with assms(2-4) show ?thesis
    by (simp add: joinRoom_def Let_def cancelRoomCleanup_def)
qed

text \<open>
  Claim C2. The capacity test of \<open>joinRoom\<close> comes before the test for an existing
  membership. In a room whose member count has reached the ceiling the repeated call of a
  member does not return the member's user object: with \<open>ROOM.MAX_USERS = 1\<close> and the room
  \<open>5500\<close> holding only socket \<open>sockA\<close>, the call of \<open>sockA\<close> for \<open>5500\<close> throws \<open>Room is full\<close>.
\<close>

theorem joinRoom_member_of_full_room:
  "fmlookup (rooms ex_joined) (lit ''5500'') = Some (ex_room\<lparr>users := fmupd sockA ann fmempty\<rparr>) \<and>
   fmlookup (users (ex_room\<lparr>users := fmupd sockA ann fmempty\<rparr>)) sockA = Some ann \<and>
   joinRoom full_config (lit ''5500'') sockA JOther 0 ex_joined = Inl (Error (lit ''Room is full''))"
  by (simp add: ex_joined_def joinRoom_def full_config_def default_config_def fcard_finsert_if)

section \<open>Creating a room\<close>

lemma isDigit_digit: "d < 10 \<Longrightarrow> isDigit (digit d)"
proof -
  assume "d < 10"
  then have "d \<in> {0, 1, 2, 3, 4, 5, 6, 7, 8, 9}" by auto
  then show ?thesis by (auto simp: isDigit_def digit_def)
qed

lemma toString_small: "n < 10 \<Longrightarrow> toString n = [digit n]"
  by (simp add: toString.simps)

lemma toString_step: "10 \<le> n \<Longrightarrow> toString n = toString (n div 10) @ [digit (n mod 10)]"
  by (subst toString.simps) simp

lemma toString_four_digits:
  assumes "1000 \<le> n" "n \<le> 9999"
  shows "toString n = [digit (n div 1000), digit (n div 100 mod 10), digit (n div 10 mod 10),
                       digit (n mod 10)]"
proof -
  have 1: "10 \<le> n" "10 \<le> n div 10" "10 \<le> n div 10 div 10" "n div 10 div 10 div 10 < 10"
    using assms by auto
  have 2: "n div 10 div 10 = n div 100" "n div 10 div 10 div 10 = n div 1000"
    "n div 100 div 10 = n div 1000"
    by (simp_all add: div_mult2_eq[symmetric])
  show ?thesis
    using 1 by (simp add: toString_step toString_small 2)
qed

lemma isRoomCode_toString:
  assumes "1000 \<le> n" "n \<le> 9999" shows "isRoomCode (toString n)"
proof -
  have "n div 1000 < 10" using assms by auto
  then show ?thesis
    by (simp add: toString_four_digits[OF assms] isRoomCode_def isDigit_digit)
qed

text \<open>
  The loop of \<open>generateRoomCode\<close> started with \<open>attempts = a\<close>: it throws when the draws
  \<open>a, ..., 98\<close> all collide with live rooms, and otherwise returns the first draw that does
  not. The draw of the iteration that raises \<open>attempts\<close> to 100 is never tested.
\<close>

lemma generateRoomCode_loop_cases:
  "(generateRoomCode_loop rs rnd a =
       Inl (Error (lit ''Unable to generate unique room code. Server at capacity.'')) \<and>
    (\<forall>k. a \<le> k \<and> k < 99 \<longrightarrow> toString (randomCode (rnd k)) |\<in>| fmdom rs)) \<or>
   (\<exists>k. a \<le> k \<and> k < 99 \<and>
        (\<forall>j. a \<le> j \<and> j < k \<longrightarrow> toString (randomCode (rnd j)) |\<in>| fmdom rs) \<and>
        toString (randomCode (rnd k)) |\<notin>| fmdom rs \<and>
        generateRoomCode_loop rs rnd a = Inr (toString (randomCode (rnd k))))"
proof (induction rs rnd a rule: generateRoomCode_loop.induct)
  case (1 rs rnd a)
  show ?case
  proof (cases "Suc a \<ge> maxAttempts")
    case True
    then have "generateRoomCode_loop rs rnd a =
       Inl (Error (lit ''Unable to generate unique room code. Server at capacity.''))"
      by (subst generateRoomCode_loop.simps) simp
    moreover from True have "\<not> (a \<le> k \<and> k < 99)" for k by (simp add: maxAttempts_def)
    ultimately show ?thesis by blast
  next
    case False
    then have a: "a < 99" by (simp add: maxAttempts_def)
    show ?thesis
    proof (cases "toString (randomCode (rnd a)) |\<in>| fmdom rs")
      case coll: True
      have eq: "generateRoomCode_loop rs rnd a = generateRoomCode_loop rs rnd (Suc a)"
        using False coll by (subst generateRoomCode_loop.simps) simp
      have down: "(a \<le> j \<and> j < k) = (j = a \<or> (Suc a \<le> j \<and> j < k))" if "a < k" for j k
        using that by auto
      from "1.IH"[OF False coll] show ?thesis
      proof
        assume h: "generateRoomCode_loop rs rnd (Suc a) =
            Inl (Error (lit ''Unable to generate unique room code. Server at capacity.'')) \<and>
            (\<forall>k. Suc a \<le> k \<and> k < 99 \<longrightarrow> toString (randomCode (rnd k)) |\<in>| fmdom rs)"
        have "toString (randomCode (rnd k)) |\<in>| fmdom rs" if "a \<le> k \<and> k < 99" for k
        proof (cases "k = a")
          case True with coll show ?thesis by simp
        next
          case False with that h show ?thesis by simp
        qed
        with h eq show ?thesis by simp
      next
        assume "\<exists>k. Suc a \<le> k \<and> k < 99 \<and>
          (\<forall>j. Suc a \<le> j \<and> j < k \<longrightarrow> toString (randomCode (rnd j)) |\<in>| fmdom rs) \<and>
          toString (randomCode (rnd k)) |\<notin>| fmdom rs \<and>
          generateRoomCode_loop rs rnd (Suc a) = Inr (toString (randomCode (rnd k)))"
        then obtain k where k: "Suc a \<le> k" "k < 99"
          "\<forall>j. Suc a \<le> j \<and> j < k \<longrightarrow> toString (randomCode (rnd j)) |\<in>| fmdom rs"
          "toString (randomCode (rnd k)) |\<notin>| fmdom rs"
          "generateRoomCode_loop rs rnd (Suc a) = Inr (toString (randomCode (rnd k)))"
          by blast
        have "toString (randomCode (rnd j)) |\<in>| fmdom rs" if "a \<le> j \<and> j < k" for j
        proof (cases "j = a")
          case True with coll show ?thesis by simp
        next
          case False with that k(3) show ?thesis by simp
        qed
        with k eq have "a \<le> k \<and> k < 99 \<and>
          (\<forall>j. a \<le> j \<and> j < k \<longrightarrow> toString (randomCode (rnd j)) |\<in>| fmdom rs) \<and>
          toString (randomCode (rnd k)) |\<notin>| fmdom rs \<and>
          generateRoomCode_loop rs rnd a = Inr (toString (randomCode (rnd k)))"
          by simp
        then show ?thesis by blast
      qed
    next
      case free: False
      have "generateRoomCode_loop rs rnd a = Inr (toString (randomCode (rnd a)))"
        using False free by (subst generateRoomCode_loop.simps) simp
      with a free have "a \<le> a \<and> a < 99 \<and>
          (\<forall>j. a \<le> j \<and> j < a \<longrightarrow> toString (randomCode (rnd j)) |\<in>| fmdom rs) \<and>
          toString (randomCode (rnd a)) |\<notin>| fmdom rs \<and>
          generateRoomCode_loop rs rnd a = Inr (toString (randomCode (rnd a)))" by auto
      then show ?thesis by blast
    qed
  qed
qed

text \<open>
  Claim C4, with the range of the codes as the source has it. The draws of \<open>Math.random()\<close>
  are doubles in \<open>[0, 1)\<close>, and the code is computed from a draw in the arithmetic of doubles. When \<open>ROOM.MAX_ROOMS > 0\<close> rooms are live, \<open>createRoom\<close> throws
  \<open>Server at capacity\<close> at once. Otherwise it either throws the capacity error of
  \<open>generateRoomCode\<close>, after the first 99 draws have all collided with live rooms, or it
  returns a room, stored under its code, whose code is the decimal string of a number from
  1000 to 9999, both included: four digits, the code of no room that was live, found after
  fewer than 99 collisions. \<open>generateRoomCode_loop\<close> is a total function: the loop ends.
\<close>

theorem createRoom_outcomes:
  assumes draws: "\<forall>k. isDouble (rnd k) \<and> 0 \<le> rnd k \<and> rnd k < 1"
  shows "(ROOM_MAX_ROOMS cfg > 0 \<and> int (fcard (fmdom (rooms s))) \<ge> ROOM_MAX_ROOMS cfg \<longrightarrow>
            createRoom cfg rnd now s =
              Inl (Error (lit ''Server at capacity. Please try again later.''))) \<and>
         (\<not> (ROOM_MAX_ROOMS cfg > 0 \<and> int (fcard (fmdom (rooms s))) \<ge> ROOM_MAX_ROOMS cfg) \<longrightarrow>
            (createRoom cfg rnd now s =
               Inl (Error (lit ''Unable to generate unique room code. Server at capacity.'')) \<and>
             (\<forall>k < 99. toString (randomCode (rnd k)) |\<in>| fmdom (rooms s))) \<or>
            (\<exists>k < 99. \<exists>n.
               n = randomCode (rnd k) \<and> 1000 \<le> n \<and> n \<le> 9999 \<and> isRoomCode (toString n) \<and>
               (\<forall>j < k. toString (randomCode (rnd j)) |\<in>| fmdom (rooms s)) \<and>
               toString n |\<notin>| fmdom (rooms s) \<and>
               createRoom cfg rnd now s =
                 Inr (\<lparr>room_id = toString n, users = fmempty, createdAt = now, messages = []\<rparr>,
                      s\<lparr>rooms := fmupd (toString n)
                            \<lparr>room_id = toString n, users = fmempty, createdAt = now, messages = []\<rparr>
                            (rooms s)\<rparr>)))"
proof (intro conjI impI)
  assume "ROOM_MAX_ROOMS cfg > 0 \<and> int (fcard (fmdom (rooms s))) \<ge> ROOM_MAX_ROOMS cfg"
  then show "createRoom cfg rnd now s =
      Inl (Error (lit ''Server at capacity. Please try again later.''))"
    by (simp add: createRoom_def)
next
  assume room: "\<not> (ROOM_MAX_ROOMS cfg > 0 \<and> int (fcard (fmdom (rooms s))) \<ge> ROOM_MAX_ROOMS cfg)"
  then have cr: "createRoom cfg rnd now s =
      (case generateRoomCode_loop (rooms s) rnd 0 of
         Inl e \<Rightarrow> Inl e
       | Inr code \<Rightarrow>
           Inr (\<lparr>room_id = code, users = fmempty, createdAt = now, messages = []\<rparr>,
                s\<lparr>rooms := fmupd code
                      \<lparr>room_id = code, users = fmempty, createdAt = now, messages = []\<rparr>
                      (rooms s)\<rparr>))"
    by (auto simp: createRoom_def generateRoomCode_def Let_def split: sum.splits)
  from generateRoomCode_loop_cases[of "rooms s" rnd 0]
  show "(createRoom cfg rnd now s =
               Inl (Error (lit ''Unable to generate unique room code. Server at capacity.'')) \<and>
             (\<forall>k < 99. toString (randomCode (rnd k)) |\<in>| fmdom (rooms s))) \<or>
            (\<exists>k < 99. \<exists>n.
               n = randomCode (rnd k) \<and> 1000 \<le> n \<and> n \<le> 9999 \<and> isRoomCode (toString n) \<and>
               (\<forall>j < k. toString (randomCode (rnd j)) |\<in>| fmdom (rooms s)) \<and>
               toString n |\<notin>| fmdom (rooms s) \<and>
               createRoom cfg rnd now s =
                 Inr (\<lparr>room_id = toString n, users = fmempty, createdAt = now, messages = []\<rparr>,
                      s\<lparr>rooms := fmupd (toString n)
                            \<lparr>room_id = toString n, users = fmempty, createdAt = now, messages = []\<rparr>
                            (rooms s)\<rparr>))"
  proof
    assume "generateRoomCode_loop (rooms s) rnd 0 =
        Inl (Error (lit ''Unable to generate unique room code. Server at capacity.'')) \<and>
        (\<forall>k. 0 \<le> k \<and> k < 99 \<longrightarrow> toString (randomCode (rnd k)) |\<in>| fmdom (rooms s))"
    then show ?thesis by (simp add: cr)
  next
    assume "\<exists>k. 0 \<le> k \<and> k < 99 \<and>
        (\<forall>j. 0 \<le> j \<and> j < k \<longrightarrow> toString (randomCode (rnd j)) |\<in>| fmdom (rooms s)) \<and>
        toString (randomCode (rnd k)) |\<notin>| fmdom (rooms s) \<and>
        generateRoomCode_loop (rooms s) rnd 0 = Inr (toString (randomCode (rnd k)))"
    then obtain k where k: "k < 99"
        "\<forall>j < k. toString (randomCode (rnd j)) |\<in>| fmdom (rooms s)"
        "toString (randomCode (rnd k)) |\<notin>| fmdom (rooms s)"
        "generateRoomCode_loop (rooms s) rnd 0 = Inr (toString (randomCode (rnd k)))"
      by auto
    from draws have "isDouble (rnd k)" "0 \<le> rnd k" "rnd k < 1" by simp_all
    then have rg: "1000 \<le> randomCode (rnd k)" "randomCode (rnd k) \<le> 9999"
      by (rule randomCode_range)+
    from isRoomCode_toString[OF rg] have rc: "isRoomCode (toString (randomCode (rnd k)))" .
    have "createRoom cfg rnd now s =
        Inr (\<lparr>room_id = toString (randomCode (rnd k)), users = fmempty, createdAt = now,
               messages = []\<rparr>,
             s\<lparr>rooms := fmupd (toString (randomCode (rnd k)))
                   \<lparr>room_id = toString (randomCode (rnd k)), users = fmempty, createdAt = now,
                      messages = []\<rparr>
                   (rooms s)\<rparr>)"
      by (simp add: cr k(4))
    with k rg rc show ?thesis by blast
  qed
qed

lemma toString_9999: "toString 9999 = lit ''9999''"
  by (simp add: toString.simps digit_def lit_def)

text \<open>
  The claim as stated samples from \<open>[1000, 9999)\<close>. The draw \<open>16383 / 16384\<close>, a double,
  gives the room code \<open>9999\<close>.
\<close>

theorem createRoom_code_9999:
  "isDouble (16383 / 16384) \<and> (0::real) \<le> 16383 / 16384 \<and> (16383 / 16384 :: real) < 1 \<and>
   createRoom default_config (always (16383 / 16384)) 0 newRoomManager =
     Inr (room9999, newRoomManager\<lparr>rooms := fmupd (lit ''9999'') room9999 fmempty\<rparr>) \<and>
   room_id room9999 = toString (randomCode (16383 / 16384)) \<and>
   \<not> (1000 \<le> randomCode (16383 / 16384) \<and> randomCode (16383 / 16384) < 9999)"
  by (simp add: createRoom_def generateRoomCode_def generateRoomCode_loop.simps maxAttempts_def
        always_def randomCode_top toString_9999 newRoomManager_def default_config_def
        room9999_def fcard_fempty Let_def isDouble_top)

text \<open>A room created on the empty manager, and a refusal at a ceiling of one room.\<close>

theorem createRoom_outcomes_witness:
  "(\<forall>k. isDouble (always (1/2) k) \<and> 0 \<le> always (1/2) k \<and> always (1/2) k < 1) \<and>
   createRoom default_config (always (1/2)) 0 newRoomManager = Inr (ex_room, ex_created) \<and>
   isRoomCode (room_id ex_room) \<and>
   createRoom (default_config\<lparr>ROOM_MAX_ROOMS := 1\<rparr>) (always (1/2)) 0 ex_created =
     Inl (Error (lit ''Server at capacity. Please try again later.''))"
proof -
  have d: "\<forall>k. isDouble (always (1/2) k) \<and> 0 \<le> always (1/2) k \<and> always (1/2) k < 1"
    by (simp add: always_def isDouble_half)
  have full: "ROOM_MAX_ROOMS (default_config\<lparr>ROOM_MAX_ROOMS := 1\<rparr>) > 0 \<and>
      int (fcard (fmdom (rooms ex_created))) \<ge> ROOM_MAX_ROOMS (default_config\<lparr>ROOM_MAX_ROOMS := 1\<rparr>)"
    by (simp add: ex_created_def fcard_finsert_if)
  from createRoom_outcomes[OF d, of "default_config\<lparr>ROOM_MAX_ROOMS := 1\<rparr>" ex_created 0] full
  have 1: "createRoom (default_config\<lparr>ROOM_MAX_ROOMS := 1\<rparr>) (always (1/2)) 0 ex_created =
     Inl (Error (lit ''Server at capacity. Please try again later.''))" by blast
  have free: "\<not> (ROOM_MAX_ROOMS default_config > 0 \<and>
      int (fcard (fmdom (rooms newRoomManager))) \<ge> ROOM_MAX_ROOMS default_config)"
    by (simp add: newRoomManager_def default_config_def fcard_fempty)
  have nofail: "\<not> (\<forall>k < 99. toString (randomCode (always (1/2) k)) |\<in>| fmdom (rooms newRoomManager))"
    by (auto simp: newRoomManager_def intro: exI[of _ 0])
  from createRoom_outcomes[OF d, of default_config newRoomManager 0] free nofail
  obtain n where n: "isRoomCode (toString n)"
     "createRoom default_config (always (1/2)) 0 newRoomManager =
                 Inr (\<lparr>room_id = toString n, users = fmempty, createdAt = 0, messages = []\<rparr>,
                      newRoomManager\<lparr>rooms := fmupd (toString n)
                            \<lparr>room_id = toString n, users = fmempty, createdAt = 0, messages = []\<rparr>
                            (rooms newRoomManager)\<rparr>)"
    by blast
  note c = ex_createRoom
  from n c have "isRoomCode (room_id ex_room)" by (simp add: ex_room_def)
  with d c 1 show ?thesis by blast
qed

section \<open>The message history\<close>

text \<open>With a limit that is not negative the loop ends and keeps the last \<open>limit\<close> messages.\<close>

lemma enforceHistoryLimit_drop:
  "0 \<le> limit \<Longrightarrow> enforceHistoryLimit limit ms = Some (drop (length ms - nat limit) ms)"
proof (induction ms)
  case Nil
  then show ?case by (subst enforceHistoryLimit.simps) simp
next
  case (Cons m ms)
  show ?case
  proof (cases "int (length (m # ms)) > limit")
    case True
    then have "enforceHistoryLimit limit (m # ms) = enforceHistoryLimit limit ms"
      by (subst enforceHistoryLimit.simps) simp
    also have "\<dots> = Some (drop (length ms - nat limit) ms)" by (rule Cons.IH[OF Cons.prems])
    also have "drop (length ms - nat limit) ms = drop (length (m # ms) - nat limit) (m # ms)"
    proof -
      from True Cons.prems have "nat limit \<le> length ms" by simp
      then have "length (m # ms) - nat limit = Suc (length ms - nat limit)" by simp
      then show ?thesis by simp
    qed
    finally show ?thesis .
  next
    case False
    then have "enforceHistoryLimit limit (m # ms) = Some (m # ms)"
      by (subst enforceHistoryLimit.simps) simp
    moreover from False have "length (m # ms) - nat limit = 0" by simp
    ultimately show ?thesis by simp
  qed
qed

text \<open>Whatever the loop returns is within the limit, so under a negative limit it returns nothing.\<close>

lemma enforceHistoryLimit_bound:
  assumes "enforceHistoryLimit limit ms = Some res" shows "int (length res) \<le> limit"
  by (rule enforceHistoryLimit.raw_induct[where P = "\<lambda>limit ms res. int (length res) \<le> limit",
        OF _ assms]) (auto split: if_splits)

lemma enforceHistoryLimit_negative: "limit < 0 \<Longrightarrow> enforceHistoryLimit limit ms = None"
proof (rule ccontr)
  assume "limit < 0" "enforceHistoryLimit limit ms \<noteq> None"
  then obtain res where "enforceHistoryLimit limit ms = Some res" by auto
  from enforceHistoryLimit_bound[OF this] \<open>limit < 0\<close> show False by simp
qed

lemma addMessage_step:
  assumes "fmlookup (rooms s) rid = Some r" "0 \<le> MESSAGE_HISTORY_LIMIT cfg"
  shows "addMessage cfg rid m s =
           Some (s\<lparr>rooms := fmupd rid
                   (r\<lparr>messages := drop (length (messages r @ [m]) - nat (MESSAGE_HISTORY_LIMIT cfg))
                                     (messages r @ [m])\<rparr>) (rooms s)\<rparr>)"
  using assms by (simp add: addMessage_def enforceHistoryLimit_drop)

lemma last_of_last:
  "drop (length (drop (length xs - n) xs @ ys) - n) (drop (length xs - n) xs @ ys) =
   drop (length (xs @ ys) - n) (xs @ ys)"
  by (cases "length xs \<le> n") (auto simp: add.commute)

lemma addMessages_drop:
  assumes "fmlookup (rooms s) rid = Some r" "0 \<le> MESSAGE_HISTORY_LIMIT cfg"
      and "int (length (messages r)) \<le> MESSAGE_HISTORY_LIMIT cfg"
  shows "\<exists>s'. addMessages cfg rid new s = Some s' \<and>
              history rid s' =
                drop (length (messages r @ new) - nat (MESSAGE_HISTORY_LIMIT cfg)) (messages r @ new)"
  using assms
proof (induction new arbitrary: s r)
  case Nil
  then show ?case by (simp add: history_def)
next
  case (Cons m new)
  let ?L = "nat (MESSAGE_HISTORY_LIMIT cfg)"
  let ?h = "drop (length (messages r @ [m]) - ?L) (messages r @ [m])"
  let ?s1 = "s\<lparr>rooms := fmupd rid (r\<lparr>messages := ?h\<rparr>) (rooms s)\<rparr>"
  have step: "addMessage cfg rid m s = Some ?s1" by (rule addMessage_step[OF Cons.prems(1,2)])
  have 1: "fmlookup (rooms ?s1) rid = Some (r\<lparr>messages := ?h\<rparr>)" by simp
  have 3: "int (length (messages (r\<lparr>messages := ?h\<rparr>))) \<le> MESSAGE_HISTORY_LIMIT cfg"
    using Cons.prems(2) by auto
  from Cons.IH[OF 1 Cons.prems(2) 3] obtain s' where
    s': "addMessages cfg rid new ?s1 = Some s'"
    "history rid s' = drop (length (?h @ new) - ?L) (?h @ new)" by auto
  have "drop (length (?h @ new) - ?L) (?h @ new) =
        drop (length ((messages r @ [m]) @ new) - ?L) ((messages r @ [m]) @ new)"
    by (rule last_of_last)
  with s' step show ?case by simp
qed

text \<open>
  Claim C5. A live room whose history is within \<open>MESSAGE.HISTORY_LIMIT\<close> (a new room's is
  empty), the limit not negative. Any sequence of \<open>addMessage\<close> calls for the room returns,
  and afterwards the history has at most \<open>HISTORY_LIMIT\<close> messages: the last \<open>HISTORY_LIMIT\<close>
  of the old history followed by the added messages, in their order. When more than
  \<open>HISTORY_LIMIT\<close> messages were added, these are exactly the most recent \<open>HISTORY_LIMIT\<close> of
  the added ones.
\<close>

theorem history_limit:
  assumes room: "fmlookup (rooms s) rid = Some r"
      and lim: "0 \<le> MESSAGE_HISTORY_LIMIT cfg"
      and start: "int (length (messages r)) \<le> MESSAGE_HISTORY_LIMIT cfg"
  shows "\<exists>s'. addMessages cfg rid new s = Some s' \<and>
           int (length (history rid s')) \<le> MESSAGE_HISTORY_LIMIT cfg \<and>
           history rid s' =
             drop (length (messages r @ new) - nat (MESSAGE_HISTORY_LIMIT cfg)) (messages r @ new) \<and>
           (int (length new) > MESSAGE_HISTORY_LIMIT cfg \<longrightarrow>
              history rid s' = drop (length new - nat (MESSAGE_HISTORY_LIMIT cfg)) new \<and>
              int (length (history rid s')) = MESSAGE_HISTORY_LIMIT cfg)"
proof -
  let ?L = "nat (MESSAGE_HISTORY_LIMIT cfg)"
  from addMessages_drop[OF room lim start, of new] obtain s' where
    s': "addMessages cfg rid new s = Some s'"
        "history rid s' = drop (length (messages r @ new) - ?L) (messages r @ new)" by blast
  have b: "int (length (history rid s')) \<le> MESSAGE_HISTORY_LIMIT cfg"
    using s'(2) lim start by auto
  have c: "history rid s' = drop (length new - ?L) new \<and>
           int (length (history rid s')) = MESSAGE_HISTORY_LIMIT cfg"
    if "int (length new) > MESSAGE_HISTORY_LIMIT cfg"
  proof -
    from that lim have "?L \<le> length new" by simp
    then show ?thesis using s'(2) lim by (auto simp: drop_append)
  qed
  from s' b c show ?thesis by blast
qed

text \<open>Three messages added to a new room under a limit of two.\<close>

theorem history_limit_witness:
  "fmlookup (rooms ex_created) (lit ''5500'') = Some ex_room \<and>
   0 \<le> MESSAGE_HISTORY_LIMIT small_history \<and>
   int (length (messages ex_room)) \<le> MESSAGE_HISTORY_LIMIT small_history \<and>
   (\<exists>s'. addMessages small_history (lit ''5500'') [ex_msg ''one'', ex_msg ''two'', ex_msg ''three''] ex_created
            = Some s' \<and>
         history (lit ''5500'') s' = [ex_msg ''two'', ex_msg ''three''])"
proof -
  have 1: "fmlookup (rooms ex_created) (lit ''5500'') = Some ex_room"
    by (simp add: ex_created_def)
  have 2: "0 \<le> MESSAGE_HISTORY_LIMIT small_history" by (simp add: small_history_def)
  have 3: "int (length (messages ex_room)) \<le> MESSAGE_HISTORY_LIMIT small_history"
    by (simp add: ex_room_def small_history_def)
  from history_limit[OF 1 2 3, of "[ex_msg ''one'', ex_msg ''two'', ex_msg ''three'']"]
  obtain s' where
    "addMessages small_history (lit ''5500'') [ex_msg ''one'', ex_msg ''two'', ex_msg ''three''] ex_created
       = Some s'"
    "history (lit ''5500'') s' =
       drop (length (messages ex_room @ [ex_msg ''one'', ex_msg ''two'', ex_msg ''three'']) -
             nat (MESSAGE_HISTORY_LIMIT small_history))
         (messages ex_room @ [ex_msg ''one'', ex_msg ''two'', ex_msg ''three''])"
    by blast
  then have "addMessages small_history (lit ''5500'') [ex_msg ''one'', ex_msg ''two'', ex_msg ''three''] ex_created
       = Some s' \<and> history (lit ''5500'') s' = [ex_msg ''two'', ex_msg ''three'']"
    by (simp add: ex_room_def small_history_def)
  with 1 2 3 show ?thesis by blast
qed

section \<open>Validating and sanitizing a message\<close>

lemma replaceAll_Nil [simp]: "replaceAll c r [] = []"
  by (simp add: replaceAll_def)

lemma replaceAll_Cons: "replaceAll c r (x # xs) = (if x = c then r else [x]) @ replaceAll c r xs"
  by (simp add: replaceAll_def)

lemma replaceAll_append: "replaceAll c r (xs @ ys) = replaceAll c r xs @ replaceAll c r ys"
  by (simp add: replaceAll_def)

lemma escapeHtml_Nil [simp]: "escapeHtml [] = []"
  by (simp add: escapeHtml_def)

lemma escapeHtml_Cons: "escapeHtml (x # xs) = escapeChar x @ escapeHtml xs"
  by (simp add: escapeHtml_def escapeChar_def replaceAll_Cons replaceAll_append lit_def)

lemma escapeHtml_concat: "escapeHtml s = concat (map escapeChar s)"
  by (induction s) (simp_all add: escapeHtml_Cons)

lemma entity_units:
  "e \<in> set entities \<Longrightarrow> y \<in> set e \<Longrightarrow> y \<notin> {0x3C, 0x3E, 0x22, 0x27} \<and> \<not> isMessageControl y"
  unfolding entities_def lit_def isMessageControl_def by auto

lemma escapeChar_cases:
  "escapeChar x \<in> set entities \<or> (escapeChar x = [x] \<and> x \<notin> {0x26, 0x3C, 0x3E, 0x22, 0x27})"
  by (simp add: escapeChar_def entities_def)

lemma escapeChar_units:
  assumes "y \<in> set (escapeChar x)"
  shows "y \<notin> {0x3C, 0x3E, 0x22, 0x27} \<and> (isMessageControl y \<longrightarrow> y = x)"
  using escapeChar_cases[of x]
proof
  assume "escapeChar x \<in> set entities"
  from entity_units[OF this assms] show ?thesis by simp
next
  assume "escapeChar x = [x] \<and> x \<notin> {0x26, 0x3C, 0x3E, 0x22, 0x27}"
  with assms show ?thesis by simp
qed

lemma escapeHtml_units:
  assumes "y \<in> set (escapeHtml s)"
  shows "y \<notin> {0x3C, 0x3E, 0x22, 0x27} \<and> (isMessageControl y \<longrightarrow> y \<in> set s)"
proof -
  from assms obtain x where x: "x \<in> set s" "y \<in> set (escapeChar x)"
    by (auto simp: escapeHtml_concat)
  from escapeChar_units[OF x(2)] x(1) show ?thesis by blast
qed

lemma escaped_plain: "0x26 \<notin> set xs \<Longrightarrow> escaped rest \<Longrightarrow> escaped (xs @ rest)"
  by (induction xs) auto

lemma entity_shape: "e \<in> set entities \<Longrightarrow> e \<noteq> [] \<and> 0x26 \<notin> set (tl e)"
  unfolding entities_def lit_def by auto

lemma escaped_entity:
  assumes "e \<in> set entities" "escaped rest" shows "escaped (e @ rest)"
proof -
  from entity_shape[OF assms(1)] obtain c cs where e: "e = c # cs" and cs: "0x26 \<notin> set cs"
    by (cases e) auto
  have "prefix e (c # cs @ rest)" by (simp add: e)
  with assms(1) have "\<exists>e' \<in> set entities. prefix e' (c # cs @ rest)" by blast
  moreover have "escaped (cs @ rest)" by (rule escaped_plain[OF cs assms(2)])
  ultimately show ?thesis by (auto simp: e)
qed

lemma escaped_escapeChar:
  assumes "escaped rest" shows "escaped (escapeChar x @ rest)"
  using escapeChar_cases[of x]
proof
  assume "escapeChar x \<in> set entities"
  then show ?thesis by (rule escaped_entity[OF _ assms])
next
  assume "escapeChar x = [x] \<and> x \<notin> {0x26, 0x3C, 0x3E, 0x22, 0x27}"
  with assms show ?thesis by simp
qed

lemma escaped_escapeHtml: "escaped (escapeHtml s)"
  by (induction s) (simp_all add: escapeHtml_Cons escaped_escapeChar)

lemma validateMessage_Valid:
  assumes "validateMessage cfg v = Valid out"
  shows "\<exists>c. v = JStr c \<and> trim c \<noteq> [] \<and> int (length (trim c)) \<le> MESSAGE_MAX_LENGTH cfg \<and>
             out = escapeHtml (filter (\<lambda>x. \<not> isMessageControl x) (trim c))"
proof (cases v)
  case (JStr c)
  with assms show ?thesis
    by (simp add: validateMessage_def Let_def MESSAGE_MIN_LENGTH_def split: if_splits)
next
  case (JObj fs)
  with assms show ?thesis by (simp add: validateMessage_def)
next
  case JOther
  with assms show ?thesis by (simp add: validateMessage_def)
qed

lemma validateMessage_clean:
  assumes "validateMessage cfg v = Valid out"
  shows "(\<forall>x \<in> set out. \<not> isMessageControl x \<and> x \<notin> {0x3C, 0x3E, 0x22, 0x27}) \<and> escaped out"
proof -
  from validateMessage_Valid[OF assms] obtain c where
    out: "out = escapeHtml (filter (\<lambda>x. \<not> isMessageControl x) (trim c))" by blast
  have "\<not> isMessageControl x \<and> x \<notin> {0x3C, 0x3E, 0x22, 0x27}" if "x \<in> set out" for x
  proof -
    from that have "x \<in> set (escapeHtml (filter (\<lambda>x. \<not> isMessageControl x) (trim c)))"
      by (simp add: out)
    from escapeHtml_units[OF this] show ?thesis by simp
  qed
  then have "\<forall>x \<in> set out. \<not> isMessageControl x \<and> x \<notin> {0x3C, 0x3E, 0x22, 0x27}" by blast
  moreover have "escaped out" unfolding out by (rule escaped_escapeHtml)
  ultimately show ?thesis by blast
qed

lemma success_failure [simp]: "\<not> success (failure m)"
  by (simp add: failure_def)

lemma sendMessage_success:
  assumes run: "sendMessageHandler cfg sid now sfx date data sv = Some out"
      and ok: "success (reply out)"
  shows "\<exists>fs rid ui sanitized.
           data = JObj fs \<and> field ''roomId'' fs = JStr rid \<and>
           getUserInfo sid (manager sv) = Some ui \<and> roomId ui = rid \<and>
           validateMessage cfg (field ''content'' fs) = Valid sanitized \<and>
           effects out = [Emit (ToRoom rid) (MessageEvent (userMessage now sfx date ui sanitized))] \<and>
           addMessage cfg rid (userMessage now sfx date ui sanitized) (manager sv) =
             Some (manager (state out))"
proof (cases data)
  case (JObj fs)
  show ?thesis
  proof (cases "field ''roomId'' fs")
    case (JStr rid)
    obtain rc ml where c: "check now sid (messageRateLimiter sv) = (rc, ml)"
      by (cases "check now sid (messageRateLimiter sv)")
    from run ok JObj JStr c have code: "isRoomCode rid" and al: "allowed rc"
      by (auto simp: sendMessageHandler_def Let_def split: if_splits)
    show ?thesis
    proof (cases "getUserInfo sid (manager sv)")
      case None
      with run ok JObj JStr c code al show ?thesis
        by (auto simp: sendMessageHandler_def Let_def)
    next
      case (Some ui)
      from run ok JObj JStr c code al Some have rid: "roomId ui = rid"
        by (auto simp: sendMessageHandler_def Let_def split: if_splits)
      show ?thesis
      proof (cases "validateMessage cfg (field ''content'' fs)")
        case (Invalid err)
        with run ok JObj JStr c code al Some rid show ?thesis
          by (auto simp: sendMessageHandler_def Let_def)
      next
        case (Valid sanitized)
        with run ok JObj JStr c code al Some rid
        have "effects out = [Emit (ToRoom rid) (MessageEvent (userMessage now sfx date ui sanitized))] \<and>
           addMessage cfg rid (userMessage now sfx date ui sanitized) (manager sv) =
             Some (manager (state out))"
          by (auto simp: sendMessageHandler_def Let_def userMessage_def split: option.splits)
        with JObj JStr Some rid Valid show ?thesis by blast
      qed
    qed
  next
    case (JObj x)
    with run ok \<open>data = JObj fs\<close> show ?thesis by (auto simp: sendMessageHandler_def)
  next
    case JOther
    with run ok \<open>data = JObj fs\<close> show ?thesis by (auto simp: sendMessageHandler_def)
  qed
next
  case (JStr x)
  with run ok show ?thesis by (auto simp: sendMessageHandler_def)
next
  case JOther
  with run ok show ?thesis by (auto simp: sendMessageHandler_def)
qed

lemma addMessage_last:
  assumes "addMessage cfg rid m s = Some s'" "rid |\<in>| fmdom (rooms s)"
      and "1 \<le> MESSAGE_HISTORY_LIMIT cfg"
  shows "last (history rid s') = m"
proof -
  from assms(2) obtain r where r: "fmlookup (rooms s) rid = Some r" by (auto simp: fmlookup_dom_iff)
  from assms(3) have l: "0 \<le> MESSAGE_HISTORY_LIMIT cfg" by simp
  from addMessage_step[OF r l, of m] assms(1)
  have "history rid s' =
          drop (length (messages r @ [m]) - nat (MESSAGE_HISTORY_LIMIT cfg)) (messages r @ [m])"
    by (auto simp: history_def)
  moreover from assms(3)
  have "length (messages r @ [m]) - nat (MESSAGE_HISTORY_LIMIT cfg) < length (messages r @ [m])"
    by simp
  ultimately show ?thesis by (simp only: last_drop last_snoc)
qed

lemma validateMessage_rejects:
  "validateMessage cfg JOther = Invalid (lit ''Message cannot be empty'')"
  "validateMessage cfg (JObj fs) = Invalid (lit ''Message cannot be empty'')"
  "trim c = [] \<Longrightarrow>
     validateMessage cfg (JStr c) =
       Invalid (if c = [] then lit ''Message cannot be empty'' else lit ''Message too short'')"
  "trim c \<noteq> [] \<Longrightarrow> int (length (trim c)) > MESSAGE_MAX_LENGTH cfg \<Longrightarrow>
     validateMessage cfg (JStr c) =
       Invalid (lit ''Message too long (max '' @ toStringInt (MESSAGE_MAX_LENGTH cfg)
                @ lit '' characters)'')"
  "trim c \<noteq> [] \<Longrightarrow> int (length (trim c)) \<le> MESSAGE_MAX_LENGTH cfg \<Longrightarrow>
     validateMessage cfg (JStr c) = Valid (escapeHtml (filter (\<lambda>x. \<not> isMessageControl x) (trim c)))"
  by (auto simp: validateMessage_def Let_def MESSAGE_MIN_LENGTH_def trim_def)

text \<open>
  Claim C6, with the characters as the source has them. \<open>validateMessage\<close> rejects a value
  that is not a string and the empty string (\<open>Message cannot be empty\<close>), a string that is
  empty after trimming (\<open>Message too short\<close>) and one whose trimmed form is longer than
  \<open>MESSAGE.MAX_LENGTH\<close> (\<open>Message too long\<close>, with the maximum in the text), and accepts
  every other string. An accepted result contains no code unit of the class
  \<open>[\x00-\x08\x0B\x0C\x0E-\x1F\x7F]\<close> and none of \<open>< > " '\<close>, and every \<open>&\<close> in it begins
  one of \<open>&amp; &lt; &gt; &quot; &#x27;\<close>. A \<open>send-message\<close> request that succeeds has
  broadcast to the room one message whose content is that sanitized string, and has passed
  the same message to \<open>addMessage\<close>: with a history limit of at least one and the room live,
  it is the last message of the room's history.
\<close>

theorem validateMessage_contract:
  "validateMessage cfg JOther = Invalid (lit ''Message cannot be empty'') \<and>
   validateMessage cfg (JObj fs) = Invalid (lit ''Message cannot be empty'') \<and>
   (trim c = [] \<longrightarrow>
      validateMessage cfg (JStr c) =
        Invalid (if c = [] then lit ''Message cannot be empty'' else lit ''Message too short'')) \<and>
   (trim c \<noteq> [] \<and> int (length (trim c)) > MESSAGE_MAX_LENGTH cfg \<longrightarrow>
      validateMessage cfg (JStr c) =
        Invalid (lit ''Message too long (max '' @ toStringInt (MESSAGE_MAX_LENGTH cfg)
                 @ lit '' characters)'')) \<and>
   (trim c \<noteq> [] \<and> int (length (trim c)) \<le> MESSAGE_MAX_LENGTH cfg \<longrightarrow>
      validateMessage cfg (JStr c) =
        Valid (escapeHtml (filter (\<lambda>x. \<not> isMessageControl x) (trim c)))) \<and>
   (\<forall>out. validateMessage cfg v = Valid out \<longrightarrow>
      (\<forall>x \<in> set out. \<not> isMessageControl x \<and> x \<notin> {0x3C, 0x3E, 0x22, 0x27}) \<and> escaped out) \<and>
   (\<forall>res. sendMessageHandler cfg sid now sfx date data sv = Some res \<and> success (reply res) \<longrightarrow>
      (\<exists>fs rid ui sanitized.
         data = JObj fs \<and> field ''roomId'' fs = JStr rid \<and>
         getUserInfo sid (manager sv) = Some ui \<and>
         validateMessage cfg (field ''content'' fs) = Valid sanitized \<and>
         effects res = [Emit (ToRoom rid) (MessageEvent (userMessage now sfx date ui sanitized))] \<and>
         addMessage cfg rid (userMessage now sfx date ui sanitized) (manager sv) =
           Some (manager (state res)) \<and>
         (1 \<le> MESSAGE_HISTORY_LIMIT cfg \<and> rid |\<in>| fmdom (rooms (manager sv)) \<longrightarrow>
            last (history rid (manager (state res))) = userMessage now sfx date ui sanitized)))"
proof -
  have H: "\<exists>fs rid ui sanitized.
         data = JObj fs \<and> field ''roomId'' fs = JStr rid \<and>
         getUserInfo sid (manager sv) = Some ui \<and>
         validateMessage cfg (field ''content'' fs) = Valid sanitized \<and>
         effects res = [Emit (ToRoom rid) (MessageEvent (userMessage now sfx date ui sanitized))] \<and>
         addMessage cfg rid (userMessage now sfx date ui sanitized) (manager sv) =
           Some (manager (state res)) \<and>
         (1 \<le> MESSAGE_HISTORY_LIMIT cfg \<and> rid |\<in>| fmdom (rooms (manager sv)) \<longrightarrow>
            last (history rid (manager (state res))) = userMessage now sfx date ui sanitized)"
    if "sendMessageHandler cfg sid now sfx date data sv = Some res \<and> success (reply res)" for res
  proof -
    from that sendMessage_success[of cfg sid now sfx date data sv res]
    obtain fs rid ui sanitized where
      a: "data = JObj fs" "field ''roomId'' fs = JStr rid" "getUserInfo sid (manager sv) = Some ui"
         "validateMessage cfg (field ''content'' fs) = Valid sanitized"
         "effects res = [Emit (ToRoom rid) (MessageEvent (userMessage now sfx date ui sanitized))]"
         "addMessage cfg rid (userMessage now sfx date ui sanitized) (manager sv) =
            Some (manager (state res))"
      by blast
    have "last (history rid (manager (state res))) = userMessage now sfx date ui sanitized"
      if "1 \<le> MESSAGE_HISTORY_LIMIT cfg \<and> rid |\<in>| fmdom (rooms (manager sv))"
      using addMessage_last[OF a(6)] that by blast
    with a show ?thesis by blast
  qed
  show ?thesis
    using validateMessage_rejects(1)[of cfg] validateMessage_rejects(2)[of cfg fs]
      validateMessage_rejects(3)[of c cfg] validateMessage_rejects(4)[of c cfg]
      validateMessage_rejects(5)[of c cfg] validateMessage_clean[of cfg v] H by blast
qed

text \<open>
  The claim as stated has no control characters in an accepted result. Tab, line feed and
  carriage return are outside the class that is removed: \<open><\<close>, tab, \<open>&\<close> is accepted and
  keeps its tab; the \<open>&\<close> of each entity is in the result as well.
\<close>

theorem validateMessage_keeps_tab:
  "validateMessage default_config (JStr [0x3C, 0x09, 0x26]) = Valid (lit ''&lt;'' @ [0x09] @ lit ''&amp;'') \<and>
   isNameControl 0x09 \<and> 0x09 \<in> set (lit ''&lt;'' @ [0x09] @ lit ''&amp;'') \<and>
   0x26 \<in> set (lit ''&lt;'' @ [0x09] @ lit ''&amp;'')"
  by (simp add: validateMessage_def Let_def MESSAGE_MIN_LENGTH_def trim_def isWhiteSpace_def
        default_config_def isMessageControl_def escapeHtml_def replaceAll_def lit_def
        isNameControl_def)

lemma validate_script:
  "validateMessage default_config (JStr (lit ''<script>'')) = Valid (lit ''&lt;script&gt;'')"
  by (simp add: validateMessage_def Let_def MESSAGE_MIN_LENGTH_def trim_def isWhiteSpace_def
        default_config_def isMessageControl_def escapeHtml_def replaceAll_def lit_def)

lemma ex_getUserInfo: "getUserInfo sockA ex_joined = Some ann_entry"
  by (simp add: getUserInfo_def ex_joined_def ann_entry_def)

lemma ex_message_allowed: "allowed (fst (check 0 sockA (messageRateLimiter ex_server)))"
  by (simp add: ex_server_def newRateLimiter_def check_def current_client_def Let_def)

lemma ex_addMessage:
  "addMessage default_config (lit ''5500'') m ex_joined =
     Some (ex_joined\<lparr>rooms := fmupd (lit ''5500'')
             (ex_room\<lparr>users := fmupd sockA ann fmempty, messages := [m]\<rparr>) (rooms ex_joined)\<rparr>)"
proof -
  have l: "0 \<le> MESSAGE_HISTORY_LIMIT default_config" by (simp add: default_config_def)
  from addMessage_step[OF ex_joined_room l, of m] show ?thesis
    by (simp add: ex_room_def default_config_def)
qed

lemma ex_sendMessage:
  "sendMessageHandler default_config sockA 0 [] 0 script_payload ex_server =
     Some \<lparr>reply = ok,
           effects = [Emit (ToRoom (lit ''5500''))
                        (MessageEvent (userMessage 0 [] 0 ann_entry (lit ''&lt;script&gt;'')))],
           state = ex_server
             \<lparr>messageRateLimiter := snd (check 0 sockA (messageRateLimiter ex_server)),
              manager := ex_joined\<lparr>rooms := fmupd (lit ''5500'')
                  (ex_room\<lparr>users := fmupd sockA ann fmempty,
                           messages := [userMessage 0 [] 0 ann_entry (lit ''&lt;script&gt;'')]\<rparr>)
                  (rooms ex_joined)\<rparr>\<rparr>\<rparr>"
proof -
  have f: "field ''roomId'' [(''roomId'', JStr (lit ''5500'')), (''content'', JStr (lit ''<script>''))]
             = JStr (lit ''5500'')"
    "field ''content'' [(''roomId'', JStr (lit ''5500'')), (''content'', JStr (lit ''<script>''))]
             = JStr (lit ''<script>'')"
    by (simp_all add: field_def)
  have m: "manager ex_server = ex_joined" by (simp add: ex_server_def)
  have r: "roomId ann_entry = lit ''5500''" by (simp add: ann_entry_def)
  show ?thesis
    using ex_message_allowed
    by (simp add: sendMessageHandler_def script_payload_def f isRoomCode_5500 Let_def
          split_beta ex_getUserInfo m r validate_script ex_addMessage userMessage_def)
qed

text \<open>The message \<open><script>\<close> sent by the member of room \<open>5500\<close>, and a blank message.\<close>

theorem validateMessage_contract_witness:
  "validateMessage default_config (JStr (lit ''<script>'')) = Valid (lit ''&lt;script&gt;'') \<and>
   filter (\<lambda>x. isMessageControl x \<or> x \<in> {0x3C, 0x3E, 0x22, 0x27}) (lit ''&lt;script&gt;'') = [] \<and>
   escaped (lit ''&lt;script&gt;'') \<and>
   validateMessage default_config (JStr (lit ''   '')) = Invalid (lit ''Message too short'') \<and>
   map_option effects (sendMessageHandler default_config sockA 0 [] 0 script_payload ex_server) =
     Some [Emit (ToRoom (lit ''5500''))
             (MessageEvent (userMessage 0 [] 0 ann_entry (lit ''&lt;script&gt;'')))] \<and>
   map_option (\<lambda>res. last (history (lit ''5500'') (manager (state res))))
     (sendMessageHandler default_config sockA 0 [] 0 script_payload ex_server) =
     Some (userMessage 0 [] 0 ann_entry (lit ''&lt;script&gt;''))"
proof -
  note T = validateMessage_contract[of default_config "[]" "lit ''   ''"
             "JStr (lit ''<script>'')" sockA 0 "[]" 0 script_payload ex_server]
  have blank: "trim (lit ''   '') = []" by (simp add: trim_def isWhiteSpace_def lit_def)
  have ne: "lit ''   '' \<noteq> []" by (simp add: lit_def)
  from T blank ne
  have 1: "validateMessage default_config (JStr (lit ''   '')) = Invalid (lit ''Message too short'')"
    by simp
  from T validate_script
  have 2: "(\<forall>x \<in> set (lit ''&lt;script&gt;''). \<not> isMessageControl x \<and> x \<notin> {0x3C, 0x3E, 0x22, 0x27}) \<and>
           escaped (lit ''&lt;script&gt;'')"
    by blast
  then have 2: "filter (\<lambda>x. isMessageControl x \<or> x \<in> {0x3C, 0x3E, 0x22, 0x27})
                  (lit ''&lt;script&gt;'') = [] \<and> escaped (lit ''&lt;script&gt;'')"
    by (simp add: filter_empty_conv)
  have 3: "map_option effects (sendMessageHandler default_config sockA 0 [] 0 script_payload ex_server) =
     Some [Emit (ToRoom (lit ''5500''))
             (MessageEvent (userMessage 0 [] 0 ann_entry (lit ''&lt;script&gt;'')))]"
    by (simp add: ex_sendMessage)
  have 4: "map_option (\<lambda>res. last (history (lit ''5500'') (manager (state res))))
     (sendMessageHandler default_config sockA 0 [] 0 script_payload ex_server) =
     Some (userMessage 0 [] 0 ann_entry (lit ''&lt;script&gt;''))"
    by (simp add: ex_sendMessage history_def)
  from validate_script 1 2 3 4 show ?thesis by blast
qed

section \<open>The message budget of send-message\<close>

lemma check_allowed_counts:
  assumes "allowed (fst (check now ident rl))"
  shows "fmlookup (clients (snd (check now ident rl))) ident =
           Some ((current_client now ident rl)\<lparr>count := count (current_client now ident rl) + 1\<rparr>) \<and>
         remaining (fst (check now ident rl)) =
           maxRequests rl - (count (current_client now ident rl) + 1)"
  using assms by (auto simp: check_def Let_def split: if_splits)

lemma sendMessage_after_check:
  assumes wf: "data = JObj fs" "field ''roomId'' fs = JStr rid" "isRoomCode rid"
      and al: "allowed (fst (check now sid (messageRateLimiter sv)))"
  shows "sendMessageHandler cfg sid now sfx date data sv =
     (let sv1 = sv\<lparr>messageRateLimiter := snd (check now sid (messageRateLimiter sv))\<rparr> in
      case getUserInfo sid (manager sv) of
        None \<Rightarrow> Some \<lparr>reply = failure (lit ''Not in room''), effects = [], state = sv1\<rparr>
      | Some userInfo \<Rightarrow>
          if roomId userInfo \<noteq> rid
          then Some \<lparr>reply = failure (lit ''Not in room''), effects = [], state = sv1\<rparr>
          else
            (case validateMessage cfg (field ''content'' fs) of
               Invalid err \<Rightarrow> Some \<lparr>reply = failure err, effects = [], state = sv1\<rparr>
             | Valid sanitized \<Rightarrow>
                 (case addMessage cfg rid (userMessage now sfx date userInfo sanitized) (manager sv) of
                    None \<Rightarrow> None
                  | Some m \<Rightarrow>
                      Some \<lparr>reply = ok,
                            effects = [Emit (ToRoom rid)
                                         (MessageEvent (userMessage now sfx date userInfo sanitized))],
                            state = sv1\<lparr>manager := m\<rparr>\<rparr>)))"
  using wf al
  by (auto simp: sendMessageHandler_def Let_def split_beta userMessage_def
           split: option.splits validation.splits)

lemma addMessage_returns:
  assumes "0 \<le> MESSAGE_HISTORY_LIMIT cfg"
  shows "addMessage cfg rid m s \<noteq> None"
  using assms by (simp add: addMessage_def enforceHistoryLimit_drop split: option.splits)

text \<open>
  Claim C10. A \<open>send-message\<close> request with an object payload and a four-digit room code
  that the message limiter allows. The limiter is consulted before the membership and the
  content are tested: \<open>check\<close> raises the sender's count by one and reports one request less
  remaining. Whatever the handler then answers, it leaves the limiter as \<open>check\<close> left it.
  When the sender is not in the room the handler answers \<open>Not in room\<close>, and when the content
  is invalid it answers the validation error; in both cases it returns, nothing is emitted
  and the room manager is unchanged. When the content is valid the message is stored and
  emitted and the answer is a success, and the handler returns whenever \<open>addMessage\<close> does,
  which it does under a history limit that is not negative.
\<close>

theorem send_message_budget:
  assumes wf: "data = JObj fs" "field ''roomId'' fs = JStr rid" "isRoomCode rid"
      and al: "allowed (fst (check now sid (messageRateLimiter sv)))"
  shows "fmlookup (clients (snd (check now sid (messageRateLimiter sv)))) sid =
           Some ((current_client now sid (messageRateLimiter sv))
                   \<lparr>count := count (current_client now sid (messageRateLimiter sv)) + 1\<rparr>) \<and>
         remaining (fst (check now sid (messageRateLimiter sv))) =
           maxRequests (messageRateLimiter sv) -
             (count (current_client now sid (messageRateLimiter sv)) + 1) \<and>
         (getUserInfo sid (manager sv) = None \<or>
          (\<exists>ui. getUserInfo sid (manager sv) = Some ui \<and> roomId ui \<noteq> rid) \<longrightarrow>
            sendMessageHandler cfg sid now sfx date data sv =
              Some \<lparr>reply = failure (lit ''Not in room''), effects = [],
                    state = sv\<lparr>messageRateLimiter :=
                                 snd (check now sid (messageRateLimiter sv))\<rparr>\<rparr>) \<and>
         (\<forall>ui err. getUserInfo sid (manager sv) = Some ui \<and> roomId ui = rid \<and>
            validateMessage cfg (field ''content'' fs) = Invalid err \<longrightarrow>
            sendMessageHandler cfg sid now sfx date data sv =
              Some \<lparr>reply = failure err, effects = [],
                    state = sv\<lparr>messageRateLimiter :=
                                 snd (check now sid (messageRateLimiter sv))\<rparr>\<rparr>) \<and>
         (\<forall>ui sanitized. getUserInfo sid (manager sv) = Some ui \<and> roomId ui = rid \<and>
            validateMessage cfg (field ''content'' fs) = Valid sanitized \<longrightarrow>
            sendMessageHandler cfg sid now sfx date data sv =
              map_option
                (\<lambda>m. \<lparr>reply = ok,
                       effects = [Emit (ToRoom rid)
                                    (MessageEvent (userMessage now sfx date ui sanitized))],
                       state = sv\<lparr>messageRateLimiter :=
                                    snd (check now sid (messageRateLimiter sv)),
                                  manager := m\<rparr>\<rparr>)
                (addMessage cfg rid (userMessage now sfx date ui sanitized) (manager sv)) \<and>
            (0 \<le> MESSAGE_HISTORY_LIMIT cfg \<longrightarrow>
               addMessage cfg rid (userMessage now sfx date ui sanitized) (manager sv) \<noteq> None))"
proof -
  note eq = sendMessage_after_check[OF wf al, of cfg sfx date]
  note c = check_allowed_counts[OF al]
  have 3: "sendMessageHandler cfg sid now sfx date data sv =
              Some \<lparr>reply = failure (lit ''Not in room''), effects = [],
                    state = sv\<lparr>messageRateLimiter :=
                                 snd (check now sid (messageRateLimiter sv))\<rparr>\<rparr>"
    if "getUserInfo sid (manager sv) = None \<or>
          (\<exists>ui. getUserInfo sid (manager sv) = Some ui \<and> roomId ui \<noteq> rid)"
    using that unfolding eq by (auto simp: Let_def)
  have 4: "sendMessageHandler cfg sid now sfx date data sv =
              Some \<lparr>reply = failure err, effects = [],
                    state = sv\<lparr>messageRateLimiter :=
                                 snd (check now sid (messageRateLimiter sv))\<rparr>\<rparr>"
    if "getUserInfo sid (manager sv) = Some ui \<and> roomId ui = rid \<and>
            validateMessage cfg (field ''content'' fs) = Invalid err" for ui err
    using that unfolding eq by (auto simp: Let_def)
  have 5: "sendMessageHandler cfg sid now sfx date data sv =
              map_option
                (\<lambda>m. \<lparr>reply = ok,
                       effects = [Emit (ToRoom rid)
                                    (MessageEvent (userMessage now sfx date ui sanitized))],
                       state = sv\<lparr>messageRateLimiter :=
                                    snd (check now sid (messageRateLimiter sv)),
                                  manager := m\<rparr>\<rparr>)
                (addMessage cfg rid (userMessage now sfx date ui sanitized) (manager sv)) \<and>
            (0 \<le> MESSAGE_HISTORY_LIMIT cfg \<longrightarrow>
               addMessage cfg rid (userMessage now sfx date ui sanitized) (manager sv) \<noteq> None)"
    if "getUserInfo sid (manager sv) = Some ui \<and> roomId ui = rid \<and>
            validateMessage cfg (field ''content'' fs) = Valid sanitized" for ui sanitized
    using that addMessage_returns[of cfg rid "userMessage now sfx date ui sanitized" "manager sv"]
    unfolding eq by (auto simp: Let_def split: option.splits)
  from c 3 4 5 show ?thesis by blast
qed

lemma ex_outsider_allowed: "allowed (fst (check 0 sockB (messageRateLimiter ex_server)))"
  by (simp add: ex_server_def newRateLimiter_def check_def current_client_def Let_def)

lemma ex_outsider_info: "getUserInfo sockB (manager ex_server) = None"
  by (simp add: getUserInfo_def ex_server_def ex_joined_def sockA_def sockB_def lit_def)

lemma blank_invalid:
  "validateMessage default_config (JStr (lit ''   '')) = Invalid (lit ''Message too short'')"
proof -
  have blank: "trim (lit ''   '') = []" by (simp add: trim_def isWhiteSpace_def lit_def)
  have ne: "lit ''   '' \<noteq> []" by (simp add: lit_def)
  from validateMessage_rejects(3)[OF blank, of default_config] ne show ?thesis by simp
qed

text \<open>
  On the server with room \<open>5500\<close> and its member: a socket that is in no room sends to the
  room, the member sends a blank message, and the member sends \<open><script>\<close>. Each request
  is counted.
\<close>

theorem send_message_budget_witness:
  "allowed (fst (check 0 sockB (messageRateLimiter ex_server))) \<and>
   getUserInfo sockB (manager ex_server) = None \<and>
   sendMessageHandler default_config sockB 0 [] 0 outsider_payload ex_server =
     Some \<lparr>reply = failure (lit ''Not in room''), effects = [],
           state = ex_server\<lparr>messageRateLimiter :=
                     snd (check 0 sockB (messageRateLimiter ex_server))\<rparr>\<rparr> \<and>
   fmlookup (clients (messageRateLimiter ex_server)) sockB = None \<and>
   fmlookup (clients (snd (check 0 sockB (messageRateLimiter ex_server)))) sockB =
     Some \<lparr>count = 1, windowStart = 0\<rparr> \<and>
   remaining (fst (check 0 sockB (messageRateLimiter ex_server))) = 9 \<and>
   allowed (fst (check 0 sockA (messageRateLimiter ex_server))) \<and>
   getUserInfo sockA (manager ex_server) = Some ann_entry \<and>
   validateMessage default_config (JStr (lit ''   '')) = Invalid (lit ''Message too short'') \<and>
   sendMessageHandler default_config sockA 0 [] 0 blank_payload ex_server =
     Some \<lparr>reply = failure (lit ''Message too short''), effects = [],
           state = ex_server\<lparr>messageRateLimiter :=
                     snd (check 0 sockA (messageRateLimiter ex_server))\<rparr>\<rparr> \<and>
   fmlookup (clients (snd (check 0 sockA (messageRateLimiter ex_server)))) sockA =
     Some \<lparr>count = 1, windowStart = 0\<rparr> \<and>
   remaining (fst (check 0 sockA (messageRateLimiter ex_server))) = 9 \<and>
   map_option (\<lambda>res. (reply res, messageRateLimiter (state res)))
     (sendMessageHandler default_config sockA 0 [] 0 script_payload ex_server) =
     Some (ok, snd (check 0 sockA (messageRateLimiter ex_server)))"
proof -
  have fB: "field ''roomId'' [(''roomId'', JStr (lit ''5500'')), (''content'', JStr (lit ''hello''))]
             = JStr (lit ''5500'')"
    by (simp add: field_def)
  have fA: "field ''roomId'' [(''roomId'', JStr (lit ''5500'')), (''content'', JStr (lit ''   ''))]
             = JStr (lit ''5500'')"
      "field ''content'' [(''roomId'', JStr (lit ''5500'')), (''content'', JStr (lit ''   ''))]
             = JStr (lit ''   '')"
    by (simp_all add: field_def)
  have fS: "field ''roomId'' [(''roomId'', JStr (lit ''5500'')), (''content'', JStr (lit ''<script>''))]
             = JStr (lit ''5500'')"
      "field ''content'' [(''roomId'', JStr (lit ''5500'')), (''content'', JStr (lit ''<script>''))]
             = JStr (lit ''<script>'')"
    by (simp_all add: field_def)
  have nB: "fmlookup (clients (messageRateLimiter ex_server)) sockB = None"
    by (simp add: ex_server_def newRateLimiter_def)
  have nA: "fmlookup (clients (messageRateLimiter ex_server)) sockA = None"
    by (simp add: ex_server_def newRateLimiter_def)
  have cB: "current_client 0 sockB (messageRateLimiter ex_server) = \<lparr>count = 0, windowStart = 0\<rparr>"
    by (simp add: current_client_def nB)
  have cA: "current_client 0 sockA (messageRateLimiter ex_server) = \<lparr>count = 0, windowStart = 0\<rparr>"
    by (simp add: current_client_def nA)
  have mx: "maxRequests (messageRateLimiter ex_server) = 10"
    by (simp add: ex_server_def newRateLimiter_def)
  have gA: "getUserInfo sockA (manager ex_server) = Some ann_entry"
    using ex_getUserInfo by (simp add: ex_server_def)
  have rA: "roomId ann_entry = lit ''5500''" by (simp add: ann_entry_def)
  note TB = send_message_budget[OF outsider_payload_def fB isRoomCode_5500 ex_outsider_allowed,
              of default_config "[]" 0]
  note TA = send_message_budget[OF blank_payload_def fA(1) isRoomCode_5500 ex_message_allowed,
              of default_config "[]" 0]
  note TS = send_message_budget[OF script_payload_def fS(1) isRoomCode_5500 ex_message_allowed,
              of default_config "[]" 0]
  have 1: "sendMessageHandler default_config sockB 0 [] 0 outsider_payload ex_server =
     Some \<lparr>reply = failure (lit ''Not in room''), effects = [],
           state = ex_server\<lparr>messageRateLimiter :=
                     snd (check 0 sockB (messageRateLimiter ex_server))\<rparr>\<rparr>"
    using TB ex_outsider_info by blast
  have 2: "fmlookup (clients (snd (check 0 sockB (messageRateLimiter ex_server)))) sockB =
     Some \<lparr>count = 1, windowStart = 0\<rparr>"
    using conjunct1[OF TB] by (simp add: cB)
  have 3: "remaining (fst (check 0 sockB (messageRateLimiter ex_server))) = 9"
    using conjunct1[OF conjunct2[OF TB]] by (simp add: cB mx)
  have 4: "sendMessageHandler default_config sockA 0 [] 0 blank_payload ex_server =
     Some \<lparr>reply = failure (lit ''Message too short''), effects = [],
           state = ex_server\<lparr>messageRateLimiter :=
                     snd (check 0 sockA (messageRateLimiter ex_server))\<rparr>\<rparr>"
    using TA gA rA blank_invalid unfolding fA(2) by blast
  have 5: "fmlookup (clients (snd (check 0 sockA (messageRateLimiter ex_server)))) sockA =
     Some \<lparr>count = 1, windowStart = 0\<rparr>"
    using conjunct1[OF TA] by (simp add: cA)
  have 6: "remaining (fst (check 0 sockA (messageRateLimiter ex_server))) = 9"
    using conjunct1[OF conjunct2[OF TA]] by (simp add: cA mx)
  have l: "0 \<le> MESSAGE_HISTORY_LIMIT default_config" by (simp add: default_config_def)
  from TS gA rA validate_script l
  have "\<exists>m. sendMessageHandler default_config sockA 0 [] 0 script_payload ex_server =
     Some \<lparr>reply = ok,
           effects = [Emit (ToRoom (lit ''5500''))
                        (MessageEvent (userMessage 0 [] 0 ann_entry (lit ''&lt;script&gt;'')))],
           state = ex_server\<lparr>messageRateLimiter :=
                      snd (check 0 sockA (messageRateLimiter ex_server)), manager := m\<rparr>\<rparr>"
    unfolding fS(2) by fastforce
  then have 7: "map_option (\<lambda>res. (reply res, messageRateLimiter (state res)))
     (sendMessageHandler default_config sockA 0 [] 0 script_payload ex_server) =
     Some (ok, snd (check 0 sockA (messageRateLimiter ex_server)))"
    by auto
  from ex_outsider_allowed ex_outsider_info 1 nB 2 3 ex_message_allowed gA blank_invalid 4 5 6 7
  show ?thesis by (intro conjI)
qed

section \<open>The events of update-username\<close>












section \<open>Exceptions at the handler boundary\<close>

text \<open>With an acknowledgement the run of a handler ends with the reply of the handler.\<close>

lemma createRoomEvent_Ack:
  "createRoomEvent cfg sid now rnd date Ack sv = Answered (createRoomHandler cfg sid now rnd date sv)"
  by (simp add: createRoomEvent_def createRoomHandler_def catchCall_def call_def
        createRoomCatch_def split: sum.splits prod.splits)

lemma joinRoomEvent_Ack:
  "joinRoomEvent cfg sid now rn sfx date data Ack sv =
     Answered (joinRoomHandler cfg sid now rn sfx date data sv)"
  by (simp add: joinRoomEvent_def joinRoomHandler_def catchCall_def call_def
        joinRoomCatch_def split: sum.splits prod.splits)

lemma updateUsernameEvent_Ack:
  "updateUsernameEvent sid now sfx date data Ack sv =
     Answered (updateUsernameHandler sid now sfx date data sv)"
  by (simp add: updateUsernameEvent_def call_def Let_def)

text \<open>
  Without an acknowledgement the three handlers that call \<open>callback\<close> unguarded end, on
  every request, with the \<open>TypeError\<close> of the call in their \<open>catch\<close> clause, after the
  effects of the request. The handler of \<open>send-message\<close> returns.
\<close>

lemma createRoomEvent_NoAck:
  "createRoomEvent cfg sid now rnd date NoAck sv =
     Escaped (Error (lit ''callback is not a function''))
       (effects (createRoomHandler cfg sid now rnd date sv))
       (state (createRoomHandler cfg sid now rnd date sv))"
  by (simp add: createRoomEvent_def createRoomHandler_def catchCall_def call_def
        createRoomCatch_def split: sum.splits prod.splits)

lemma joinRoomEvent_NoAck:
  "joinRoomEvent cfg sid now rn sfx date data NoAck sv =
     Escaped (Error (lit ''callback is not a function''))
       (effects (joinRoomHandler cfg sid now rn sfx date data sv))
       (state (joinRoomHandler cfg sid now rn sfx date data sv))"
  by (simp add: joinRoomEvent_def joinRoomHandler_def catchCall_def call_def
        joinRoomCatch_def split: sum.splits prod.splits)

lemma updateUsernameEvent_NoAck:
  "updateUsernameEvent sid now sfx date data NoAck sv =
     Escaped (Error (lit ''callback is not a function''))
       (effects (updateUsernameHandler sid now sfx date data sv))
       (state (updateUsernameHandler sid now sfx date data sv))"
  by (simp add: updateUsernameEvent_def catchCall_def call_def updateUsernameCatch_def Let_def)

lemma sendMessageEvent_NoAck:
  "sendMessageEvent cfg sid now sfx date data NoAck sv =
     map_option (\<lambda>out. Unanswered (effects out) (state out))
       (sendMessageHandler cfg sid now sfx date data sv)"
  by (simp add: sendMessageEvent_def split: option.splits)

lemma ex_rejoin:
  "joinRoom default_config (lit ''5500'') sockB JOther (1 / 2) ex_joined = Inr (bob, ex_rejoined)"
  by (simp add: joinRoom_def ex_joined_def ex_rejoined_def ex_room_def ann_def bob_def
        default_config_def cancelRoomCleanup_def generateUserName_def randomCode_half
        toString_5500 substring0_def sockA_def sockB_def lit_def fcard_fempty
        fcard_finsert_if Let_def)

lemma ex_rejoin_handler:
  "joinRoomHandler default_config sockB 0 (1 / 2) [] 0 (JStr (lit ''5500'')) ex_server =
     \<lparr>reply = ok, effects = ex_join_events,
      state = ex_server\<lparr>eventRateLimiter := snd (check 0 sockB (eventRateLimiter ex_server)),
                        manager := ex_rejoined\<rparr>\<rparr>"
proof -
  have m: "manager ex_server = ex_joined" by (simp add: ex_server_def)
  have ex: "roomExists (lit ''5500'') ex_joined" by (simp add: roomExists_def ex_joined_def)
  have n: "getRoomUserCount (lit ''5500'') ex_rejoined = 2"
    by (simp add: getRoomUserCount_def ex_rejoined_def fcard_finsert_if fcard_fempty
          sockA_def sockB_def lit_def)
  have c: "lit ''User_5500'' @ lit '' joined the room'' = lit ''User_5500 joined the room''"
    by (simp add: lit_def)
  have b: "userId bob = lit ''user_socketB2''" "userName bob = lit ''User_5500''"
    by (simp_all add: bob_def)
  show ?thesis
    using ex_event_allowed
    by (simp add: joinRoomHandler_def joinRoomBody_def split_beta Let_def isRoomCode_5500 m ex
          ex_rejoin n b c ex_join_events_def)
qed

text \<open>
  Claim C8. The socket \<open>socketB2xyz\<close> asks to join room \<open>5500\<close>. With an acknowledgement
  the request succeeds. Without one, as the client sends it when it rejoins after a
  reconnection, the call of \<open>callback\<close> at the end of the body throws inside \<open>try\<close>, the
  \<open>catch\<close> clause calls \<open>callback\<close> again, and the exception of that call leaves the handler:
  no failure result is produced. By then the socket has been made a member of the room and
  the events of the join have been emitted.
\<close>

theorem missing_ack_escapes:
  "joinRoomEvent default_config sockB 0 (1 / 2) [] 0 (JStr (lit ''5500'')) Ack ex_server =
     Answered
       \<lparr>reply = ok, effects = ex_join_events,
        state = ex_server\<lparr>eventRateLimiter := snd (check 0 sockB (eventRateLimiter ex_server)),
                          manager := ex_rejoined\<rparr>\<rparr> \<and>
   joinRoomEvent default_config sockB 0 (1 / 2) [] 0 (JStr (lit ''5500'')) NoAck ex_server =
     Escaped (Error (lit ''callback is not a function'')) ex_join_events
       (ex_server\<lparr>eventRateLimiter := snd (check 0 sockB (eventRateLimiter ex_server)),
                  manager := ex_rejoined\<rparr>) \<and>
   getUserInfo sockB (manager ex_server) = None \<and>
   getUserInfo sockB ex_rejoined =
     Some \<lparr>userId = lit ''user_socketB2'', userName = lit ''User_5500'', roomId = lit ''5500''\<rparr>"
proof -
  have g: "getUserInfo sockB (manager ex_server) = None"
    by (simp add: getUserInfo_def ex_server_def ex_joined_def sockA_def sockB_def lit_def)
  have r: "getUserInfo sockB ex_rejoined =
     Some \<lparr>userId = lit ''user_socketB2'', userName = lit ''User_5500'', roomId = lit ''5500''\<rparr>"
    by (simp add: getUserInfo_def ex_rejoined_def)
  show ?thesis
    by (simp add: joinRoomEvent_Ack joinRoomEvent_NoAck ex_rejoin_handler g r)
qed

end
